theory Spec2Isabelle
  imports Complex_Main "HOL-Library.AList"
begin

section \<open>The batched camera sensor of sensors/camera/camera.py\<close>

text \<open>
  The class \<open>Camera\<close> keeps one slot per parallel environment. Its methods mutate the
  object and may raise; the model passes the object explicitly and returns an
  \<open>outcome\<close>: the object as the method left it, together with the exception when one was
  raised. Floating-point numbers are modelled as real numbers (rounding is not modelled);
  Python integers are \<open>int\<close>. Slot indices are \<open>nat\<close>: the negative indices that Python
  counts from the end are not modelled.
\<close>

subsection \<open>Exceptions, outcomes and loops\<close>

text \<open>
  \<open>CaptureError\<close> stands for whatever the capture backend raises from \<open>get_data\<close>.
\<close>

datatype error =
  RuntimeError | ValueError | AttributeError | IndexError | KeyError | TypeError
  | ZeroDivisionError | CaptureError

datatype 's outcome = Returns 's | Raises error 's

fun final :: "'s outcome \<Rightarrow> 's" where
  "final (Returns s) = s"
| "final (Raises e s) = s"

fun raised :: "'s outcome \<Rightarrow> error option" where
  "raised (Returns s) = None"
| "raised (Raises e s) = Some e"

definition and_then :: "'s outcome \<Rightarrow> ('s \<Rightarrow> 's outcome) \<Rightarrow> 's outcome" where
  "and_then r f = (case r of Returns s \<Rightarrow> f s | Raises e s \<Rightarrow> Raises e s)"

text \<open>A \<open>for\<close> loop over a list: the body runs in order and the first exception ends the loop.\<close>

fun for_each :: "('x \<Rightarrow> 's \<Rightarrow> 's outcome) \<Rightarrow> 'x list \<Rightarrow> 's \<Rightarrow> 's outcome" where
  "for_each body [] s = Returns s"
| "for_each body (x # xs) s =
     (case body x s of Returns s' \<Rightarrow> for_each body xs s' | Raises e s' \<Rightarrow> Raises e s')"

subsection \<open>Tensors and indexed assignment\<close>

type_synonym vec3 = "real \<times> real \<times> real"
type_synonym quat = "real \<times> real \<times> real \<times> real"

text \<open>
  An array as the capture backend delivers it: its shape, the device it lives on and its
  elements in row-major order (the element type is left open). A batched buffer of leading
  dimension N is the list of its N slices.
\<close>

datatype 'a tensor = Tensor (shape: "nat list") (device_of: string) (contents: "'a list")

text \<open>
  \<open>t[ids] = vals\<close> for an index sequence \<open>ids\<close>: an index out of range raises
  IndexError, a value sequence of another length raises RuntimeError (shape mismatch).
\<close>

definition index_put :: "'v list \<Rightarrow> nat list \<Rightarrow> 'v list \<Rightarrow> error + 'v list" where
  "index_put t ids vals =
     (if list_ex (\<lambda>i. length t \<le> i) ids then Inl IndexError
      else if length vals \<noteq> length ids then Inl RuntimeError
      else Inr (fold (\<lambda>(i, v) acc. acc[i := v]) (zip ids vals) t))"

text \<open>\<open>t[ids] = c\<close> for a scalar \<open>c\<close>.\<close>

definition index_fill :: "'v list \<Rightarrow> nat list \<Rightarrow> 'v \<Rightarrow> error + 'v list" where
  "index_fill t ids c = index_put t ids (map (\<lambda>_. c) ids)"

text \<open>
  \<open>torch.stack(xs, dim=0)\<close>: raises RuntimeError on an empty list and on slices of
  different shapes; the result has leading dimension \<open>length xs\<close>.
\<close>

definition torch_stack :: "'a tensor list \<Rightarrow> error + 'a tensor list" where
  "torch_stack xs =
     (case xs of
        [] \<Rightarrow> Inl RuntimeError
      | x # _ \<Rightarrow> if list_all (\<lambda>y. shape y = shape x) xs then Inr xs else Inl RuntimeError)"

text \<open>
  \<open>dst[index] = src\<close> for an integer index, where the slice \<open>dst[index]\<close> has the shape
  \<open>slice_shape\<close>: what the slice holds afterwards. A source of the same shape is copied.
  Otherwise torch drops the leading dimensions of size 1 of the source and expands it to
  the shape of the slice: the source may have fewer dimensions, and from the right each of
  its dimensions must be that of the slice or 1 (broadcasting); a source that cannot be
  expanded raises RuntimeError.

  \<open>blocks n k xs\<close> are the \<open>k\<close> consecutive blocks of \<open>n\<close> elements of \<open>xs\<close>, and
  \<open>expand_elems ds ss xs\<close> are the elements of the tensor of shape \<open>ds\<close> and elements \<open>xs\<close>
  expanded to the shape \<open>ss\<close> of the same number of dimensions: a dimension of size 1 is
  repeated.
\<close>

definition blocks :: "nat \<Rightarrow> nat \<Rightarrow> 'a list \<Rightarrow> 'a list list" where
  "blocks n k xs = map (\<lambda>i. take n (drop (i * n) xs)) [0..<k]"

fun expand_elems :: "nat list \<Rightarrow> nat list \<Rightarrow> 'a list \<Rightarrow> 'a list" where
  "expand_elems (d # ds) (s # ss) xs =
     (if d = s then concat (map (expand_elems ds ss) (blocks (prod_list ds) d xs))
      else concat (replicate s (expand_elems ds ss xs)))"
| "expand_elems ds ss xs = xs"

definition broadcastable :: "nat list \<Rightarrow> nat list \<Rightarrow> bool" where
  "broadcastable ds ss =
     (length ds \<le> length ss \<and>
      list_all2 (\<lambda>d s. d = s \<or> d = 1) ds (drop (length ss - length ds) ss))"

definition setitem_value :: "nat list \<Rightarrow> 'a tensor \<Rightarrow> error + 'a tensor" where
  "setitem_value slice_shape src =
     (if shape src = slice_shape then Inr src
      else
        let src_shape = dropWhile (\<lambda>d. d = 1) (shape src) in
        if broadcastable src_shape slice_shape
        then Inr (Tensor slice_shape (device_of src)
               (expand_elems (replicate (length slice_shape - length src_shape) 1 @ src_shape)
                  slice_shape (contents src)))
        else Inl RuntimeError)"

subsection \<open>Orientation conventions\<close>

datatype convention = OpenGL | Ros | World

definition quat_mul :: "quat \<Rightarrow> quat \<Rightarrow> quat" where
  "quat_mul p q =
     (case p of (pw, px, py, pz) \<Rightarrow> case q of (qw, qx, qy, qz) \<Rightarrow>
        (pw * qw - px * qx - py * qy - pz * qz,
         pw * qx + px * qw + py * qz - pz * qy,
         pw * qy - px * qz + py * qw + pz * qx,
         pw * qz + px * qy - py * qx + pz * qw))"

text \<open>
  Modelled from the spec: \<open>convert_orientation_convention\<close> of sensors/camera/utils.py,
  which is not among the sources. The spec (4.1) names three conventions, opengl
  (forward -Z, up +Y), ros (forward +Z, up -Y) and world (forward +X, up +Z), and makes
  the conversion a fixed rotation composed per pair of conventions, the identity when
  origin and target agree. Here the orientation is first brought to opengl and then to the
  target, each time by the quaternion of the fixed rotation between the two frames
  (w, x, y, z order): half a turn about the x axis between opengl and ros, and the rotation
  taking (x, y, z) of the world convention to (-z, -x, y) of opengl.
\<close>

definition convert_orientation_convention :: "quat \<Rightarrow> convention \<Rightarrow> convention \<Rightarrow> quat" where
  "convert_orientation_convention orientation origin target =
     (if target = origin then orientation
      else
        let quat_gl =
              (case origin of
                 Ros \<Rightarrow> quat_mul orientation (0, -1, 0, 0)
               | World \<Rightarrow> quat_mul orientation (1/2, 1/2, -1/2, -1/2)
               | OpenGL \<Rightarrow> orientation)
        in case target of
             Ros \<Rightarrow> quat_mul quat_gl (0, 1, 0, 0)
           | World \<Rightarrow> quat_mul quat_gl (1/2, -1/2, 1/2, 1/2)
           | OpenGL \<Rightarrow> quat_gl)"

subsection \<open>Configuration, scene-graph entities and the camera object\<close>

text \<open>The lens attributes of a \<open>UsdGeom.Camera\<close> that the class reads and writes.\<close>

record lens =
  focal_length :: real
  horizontal_aperture :: real
  vertical_aperture :: real
  horizontal_aperture_offset :: real
  vertical_aperture_offset :: real

text \<open>A 3 by 3 matrix, \<open>mRC\<close> the entry of row R and column C.\<close>

record mat33 =
  m00 :: real  m01 :: real  m02 :: real
  m10 :: real  m11 :: real  m12 :: real
  m20 :: real  m21 :: real  m22 :: real

definition zeros33 :: mat33 where
  "zeros33 = \<lparr>m00 = 0, m01 = 0, m02 = 0, m10 = 0, m11 = 0, m12 = 0, m20 = 0, m21 = 0, m22 = 0\<rparr>"

text \<open>An entity of the scene graph: its path, whether it is camera-typed, its lens and its world pose (opengl convention).\<close>

record prim =
  path :: string
  is_camera :: bool
  prim_lens :: lens
  prim_pos :: vec3
  prim_quat :: quat

record camera_cfg =
  prim_path :: string
  data_types :: "string list"
  height :: int
  width :: int
  spawn :: "(string \<Rightarrow> vec3 \<Rightarrow> quat \<Rightarrow> prim list \<Rightarrow> prim list) option"
  offset_pos :: vec3
  offset_rot :: quat
  offset_convention :: convention
  semantic_types :: "string list"
  colorize :: bool

text \<open>
  A Python object as the capture backend hands it over: \<open>None\<close>, an array, or any other
  object (an info table, say). \<open>get_data\<close> of an annotator returns an object or a dict of
  objects.
\<close>

datatype ('a, 'i) pyobj = PyNone | Array "'a tensor" | Other 'i

datatype ('a, 'i) payload = Plain "('a, 'i) pyobj" | Dict "(string \<times> ('a, 'i) pyobj) list"

datatype init_params =
  SemanticTypes "string list" | SemanticTypesColorize "string list" bool | Colorize bool

text \<open>An annotator handle: its name, its init parameters, its device name and the render product it is attached to.\<close>

datatype annotator =
  Annotator (ann_name: string) (ann_params: "init_params option") (ann_device: string)
    (ann_attached: string)

text \<open>
  The camera object after \<open>_initialize_impl\<close>. In place of the handles it holds, \<open>view\<close>
  lists the world pose (position, opengl quaternion) the scene graph has for each slot
  (\<open>None\<close> once the view is invalidated) and \<open>sensor_prims\<close> the lens attributes of each
  slot's camera entity. The fields from \<open>pos_w\<close> on are those of \<open>self._data\<close>; \<open>data_output\<close>
  is the TensorDict, keys in insertion order, with its batch size.
\<close>

record ('a, 'i) camera =
  cfg :: camera_cfg
  device :: string
  view :: "(vec3 \<times> quat) list option"
  sensor_prims :: "lens list"
  ALL_INDICES :: "nat list"
  frame :: "int list"
  timestamp :: "real list"
  is_outdated :: "bool list"
  render_product_paths :: "string list"
  rep_registry :: "(string \<times> annotator list) list"
  pos_w :: "vec3 list"
  quat_w_world :: "quat list"
  intrinsic_matrices :: "mat33 list"
  data_image_shape :: "int \<times> int"
  data_output :: "(string \<times> 'a tensor list) list"
  output_batch_size :: nat
  data_info :: "(string \<times> ('a, 'i) pyobj) list list"

definition image_shape :: "('a, 'i) camera \<Rightarrow> int \<times> int" where
  "image_shape s = (height (cfg s), width (cfg s))"

subsection \<open>Intrinsics\<close>

text \<open>
  The body of the loop of \<open>_update_intrinsic_matrices\<close> for slot \<open>i\<close>. Python float
  division raises ZeroDivisionError on a zero divisor.
\<close>

definition update_intrinsic_matrix :: "nat \<Rightarrow> ('a, 'i) camera \<Rightarrow> ('a, 'i) camera outcome" where
  "update_intrinsic_matrix i s =
     (if length (sensor_prims s) \<le> i then Raises IndexError s
      else
        let sensor_prim = sensor_prims s ! i;
            focal_len = focal_length sensor_prim;
            horiz_aperture = horizontal_aperture sensor_prim;
            (h, w) = image_shape s
        in if 2 * focal_len = 0 then Raises ZeroDivisionError s
           else
             let fov = 2 * arctan (horiz_aperture / (2 * focal_len)) in
             if tan (fov / 2) = 0 then Raises ZeroDivisionError s
             else
               let focal_px = real_of_int w * 0.5 / tan (fov / 2) in
               if length (intrinsic_matrices s) \<le> i then Raises IndexError s
               else Returns (s\<lparr>intrinsic_matrices := (intrinsic_matrices s)
                      [i := (intrinsic_matrices s ! i)
                         \<lparr>m00 := focal_px, m02 := real_of_int w * 0.5,
                          m11 := focal_px, m12 := real_of_int h * 0.5, m22 := 1\<rparr>]\<rparr>))"

definition update_intrinsic_matrices :: "nat list \<Rightarrow> ('a, 'i) camera \<Rightarrow> ('a, 'i) camera outcome" where
  "update_intrinsic_matrices env_ids s = for_each update_intrinsic_matrix env_ids s"







subsection \<open>Poses\<close>

text \<open>
  \<open>_update_poses\<close>. \<open>get_world_poses(env_ids)\<close> of the view returns the positions and
  the opengl quaternions of the indexed slots.
\<close>

definition update_poses :: "nat list \<Rightarrow> ('a, 'i) camera \<Rightarrow> ('a, 'i) camera outcome" where
  "update_poses env_ids s =
     (if length (sensor_prims s) = 0 then Raises RuntimeError s
      else case view s of
        None \<Rightarrow> Raises AttributeError s
      | Some v \<Rightarrow>
          if list_ex (\<lambda>i. length v \<le> i) env_ids then Raises IndexError s
          else
            let poses = map (\<lambda>i. fst (v ! i)) env_ids;
                quat = map (\<lambda>i. snd (v ! i)) env_ids
            in case index_put (pos_w s) env_ids poses of
                 Inl e \<Rightarrow> Raises e s
               | Inr p \<Rightarrow>
                   let s1 = s\<lparr>pos_w := p\<rparr> in
                   case index_put (quat_w_world s1) env_ids
                          (map (\<lambda>q. convert_orientation_convention q OpenGL World) quat) of
                     Inl e \<Rightarrow> Raises e s1
                   | Inr q \<Rightarrow> Returns (s1\<lparr>quat_w_world := q\<rparr>))"

text \<open>
  External collaborator: \<open>XFormPrimView.set_world_poses(positions, orientations, indices)\<close>
  of the simulator's core library, as the docstring of \<open>set_world_poses\<close> describes it:
  an argument that is \<open>None\<close> leaves that component of every slot as it is; the other
  is written at the given indices.
\<close>

definition view_set_world_poses ::
  "(vec3 \<times> quat) list \<Rightarrow> vec3 list option \<Rightarrow> quat list option \<Rightarrow> nat list
     \<Rightarrow> error + (vec3 \<times> quat) list" where
  "view_set_world_poses v positions orientations indices =
     (case (case positions of
              None \<Rightarrow> Inr (map fst v)
            | Some ps \<Rightarrow> index_put (map fst v) indices ps) of
        Inl e \<Rightarrow> Inl e
      | Inr ps' \<Rightarrow>
          (case (case orientations of
                   None \<Rightarrow> Inr (map snd v)
                 | Some qs \<Rightarrow> index_put (map snd v) indices qs) of
             Inl e \<Rightarrow> Inl e
           | Inr qs' \<Rightarrow> Inr (zip ps' qs')))"

text \<open>
  \<open>set_world_poses\<close>. The conversions of numpy arrays and Python lists to tensors on the
  device change the representation only and are not modelled.
\<close>

definition set_world_poses ::
  "vec3 list option \<Rightarrow> quat list option \<Rightarrow> nat list option \<Rightarrow> convention
     \<Rightarrow> ('a, 'i) camera \<Rightarrow> ('a, 'i) camera outcome" where
  "set_world_poses positions orientations env_ids conv s =
     (let ids = (case env_ids of None \<Rightarrow> ALL_INDICES s | Some ids \<Rightarrow> ids);
          orientations_gl =
            (case orientations of
               None \<Rightarrow> None
             | Some qs \<Rightarrow> Some (map (\<lambda>q. convert_orientation_convention q conv OpenGL) qs))
      in case view s of
           None \<Rightarrow> Raises AttributeError s
         | Some v \<Rightarrow>
             (case view_set_world_poses v positions orientations_gl ids of
                Inl e \<Rightarrow> Raises e s
              | Inr v' \<Rightarrow> Returns (s\<lparr>view := Some v'\<rparr>)))"

subsection \<open>Reset\<close>

text \<open>
  Modelled from the spec: \<open>SensorBase.reset\<close> of sensors/sensor_base.py, which is not among
  the sources. The caller comments it as resetting the timestamps, and the spec (4.5) has a
  read refresh the slots whose last refresh is behind; so the timestamps of the given slots
  (of all slots for \<open>None\<close>) become zero and the slots are marked outdated.
\<close>

definition SensorBase_reset :: "nat list option \<Rightarrow> ('a, 'i) camera \<Rightarrow> ('a, 'i) camera outcome" where
  "SensorBase_reset env_ids s =
     (let ids = (case env_ids of None \<Rightarrow> [0..<length (timestamp s)] | Some ids \<Rightarrow> ids)
      in case index_fill (timestamp s) ids 0 of
           Inl e \<Rightarrow> Raises e s
         | Inr ts \<Rightarrow>
             let s1 = s\<lparr>timestamp := ts\<rparr> in
             case index_fill (is_outdated s1) ids True of
               Inl e \<Rightarrow> Raises e s1
             | Inr od \<Rightarrow> Returns (s1\<lparr>is_outdated := od\<rparr>))"

definition reset :: "nat list option \<Rightarrow> ('a, 'i) camera \<Rightarrow> ('a, 'i) camera outcome" where
  "reset env_ids s =
     and_then (SensorBase_reset env_ids s) (\<lambda>s0.
       let ids = (case env_ids of None \<Rightarrow> ALL_INDICES s0 | Some ids \<Rightarrow> ids) in
       and_then (update_poses ids s0) (\<lambda>s1.
       and_then (update_intrinsic_matrices ids s1) (\<lambda>s2.
         case index_fill (frame s2) ids 0 of
           Inl e \<Rightarrow> Raises e s2
         | Inr fr \<Rightarrow> Returns (s2\<lparr>frame := fr\<rparr>))))"

subsection \<open>Annotator output\<close>

text \<open>
  Modelled from the spec: \<open>convert_to_torch\<close> of utils/array.py, which is not among the
  sources. The spec (5) has every buffer of a batch live on the one device chosen at
  construction, data being staged there from wherever it is; so an array comes back with
  the given device, its shape and contents as they were. An object that is not an array
  cannot be converted.
\<close>

definition convert_to_torch :: "('a, 'i) pyobj \<Rightarrow> string \<Rightarrow> error + 'a tensor" where
  "convert_to_torch d dev =
     (case d of
        Array t \<Rightarrow> Inr (Tensor (shape t) dev (contents t))
      | PyNone \<Rightarrow> Inl TypeError
      | Other x \<Rightarrow> Inl TypeError)"

text \<open>\<open>_process_annotator_output\<close>; \<open>d[k]\<close> of a dict raises KeyError when the key is absent.\<close>

definition process_annotator_output ::
  "string \<Rightarrow> ('a, 'i) payload \<Rightarrow> error + ('a tensor \<times> ('a, 'i) pyobj)" where
  "process_annotator_output dev out =
     (case (case out of
              Dict d \<Rightarrow>
                (case map_of d ''data'' of
                   None \<Rightarrow> Inl KeyError
                 | Some data \<Rightarrow>
                     (case map_of d ''info'' of
                        None \<Rightarrow> Inl KeyError
                      | Some info \<Rightarrow> Inr (data, info)))
            | Plain p \<Rightarrow> Inr (p, PyNone)) of
        Inl e \<Rightarrow> Inl e
      | Inr (data, info) \<Rightarrow>
          (case convert_to_torch data dev of
             Inl e \<Rightarrow> Inl e
           | Inr t \<Rightarrow> Inr (t, info)))"

subsection \<open>Refresh\<close>

text \<open>
  What the capture backend returns during one refresh is a parameter of the model:
  \<open>get_data name index\<close> is the result of \<open>annotators[index].get_data()\<close> for the annotators
  of output type \<open>name\<close>, an exception or a payload.

  The body of the inner loop of \<open>_create_annotator_data\<close>; the loop's state is the list
  \<open>data_all_cameras\<close> with the object.
\<close>

definition collect_annotator_data ::
  "(string \<Rightarrow> nat \<Rightarrow> error + ('a, 'i) payload) \<Rightarrow> string \<Rightarrow> annotator list \<Rightarrow> nat
     \<Rightarrow> 'a tensor list \<times> ('a, 'i) camera \<Rightarrow> ('a tensor list \<times> ('a, 'i) camera) outcome" where
  "collect_annotator_data get_data name annotators index acc =
     (case acc of (data_all_cameras, s) \<Rightarrow>
        if length annotators \<le> index then Raises IndexError acc
        else case get_data name index of
          Inl e \<Rightarrow> Raises e acc
        | Inr out \<Rightarrow>
            (case process_annotator_output (device s) out of
               Inl e \<Rightarrow> Raises e acc
             | Inr (data, info) \<Rightarrow>
                 if length (data_info s) \<le> index
                 then Raises IndexError (data_all_cameras @ [data], s)
                 else Returns (data_all_cameras @ [data],
                   s\<lparr>data_info := (data_info s)
                        [index := AList.update name info (data_info s ! index)]\<rparr>)))"

text \<open>
  The body of the outer loop of \<open>_create_annotator_data\<close>. A TensorDict refuses a tensor
  whose leading dimension is not its batch size.
\<close>

definition create_annotator_data_for ::
  "(string \<Rightarrow> nat \<Rightarrow> error + ('a, 'i) payload) \<Rightarrow> string \<times> annotator list
     \<Rightarrow> ('a, 'i) camera \<Rightarrow> ('a, 'i) camera outcome" where
  "create_annotator_data_for get_data entry s =
     (case entry of (name, annotators) \<Rightarrow>
        case for_each (collect_annotator_data get_data name annotators) (ALL_INDICES s) ([], s) of
          Raises e (data_all_cameras, s1) \<Rightarrow> Raises e s1
        | Returns (data_all_cameras, s1) \<Rightarrow>
            (case torch_stack data_all_cameras of
               Inl e \<Rightarrow> Raises e s1
             | Inr stacked \<Rightarrow>
                 if length stacked \<noteq> output_batch_size s1 then Raises RuntimeError s1
                 else Returns (s1\<lparr>data_output := AList.update name stacked (data_output s1)\<rparr>)))"

definition create_annotator_data ::
  "(string \<Rightarrow> nat \<Rightarrow> error + ('a, 'i) payload) \<Rightarrow> ('a, 'i) camera \<Rightarrow> ('a, 'i) camera outcome" where
  "create_annotator_data get_data s = for_each (create_annotator_data_for get_data) (rep_registry s) s"

text \<open>
  The body of the inner loop of the \<open>else\<close> branch of \<open>_update_buffers_impl\<close>. The data
  is written into the slice of the slot by \<open>output[name][index] = data\<close>.
\<close>

definition update_slot ::
  "(string \<Rightarrow> nat \<Rightarrow> error + ('a, 'i) payload) \<Rightarrow> string \<Rightarrow> annotator list \<Rightarrow> nat
     \<Rightarrow> ('a, 'i) camera \<Rightarrow> ('a, 'i) camera outcome" where
  "update_slot get_data name annotators index s =
     (if length annotators \<le> index then Raises IndexError s
      else case get_data name index of
        Inl e \<Rightarrow> Raises e s
      | Inr out \<Rightarrow>
          (case process_annotator_output (device s) out of
             Inl e \<Rightarrow> Raises e s
           | Inr (data, info) \<Rightarrow>
               (case map_of (data_output s) name of
                  None \<Rightarrow> Raises KeyError s
                | Some buf \<Rightarrow>
                    if length buf \<le> index then Raises IndexError s
                    else
                      (case setitem_value (shape (buf ! index)) data of
                         Inl e \<Rightarrow> Raises e s
                       | Inr slice \<Rightarrow>
                           let s1 = s\<lparr>data_output :=
                                       AList.update name (buf[index := slice]) (data_output s)\<rparr>
                           in if length (data_info s1) \<le> index then Raises IndexError s1
                              else Returns (s1\<lparr>data_info := (data_info s1)
                                     [index := AList.update name info (data_info s1 ! index)]\<rparr>)))))"

text \<open>
  \<open>_update_buffers_impl\<close>. \<open>frame[env_ids] += 1\<close> reads the indexed counters, adds one and
  writes them back, so a slot listed twice is incremented once.
\<close>

definition update_buffers_impl ::
  "(string \<Rightarrow> nat \<Rightarrow> error + ('a, 'i) payload) \<Rightarrow> nat list \<Rightarrow> ('a, 'i) camera
     \<Rightarrow> ('a, 'i) camera outcome" where
  "update_buffers_impl get_data env_ids s =
     (case index_put (frame s) env_ids (map (\<lambda>i. frame s ! i + 1) env_ids) of
        Inl e \<Rightarrow> Raises e s
      | Inr fr \<Rightarrow>
          and_then (update_intrinsic_matrices env_ids (s\<lparr>frame := fr\<rparr>)) (\<lambda>s1.
          and_then (update_poses env_ids s1) (\<lambda>s2.
            if length (data_output s2) = 0 then create_annotator_data get_data s2
            else
              for_each (\<lambda>(name, annotators).
                  for_each (update_slot get_data name annotators) env_ids)
                (rep_registry s2) s2)))"

subsection \<open>Construction and initialization\<close>

text \<open>
  The scene graph: its entities, and the path patterns resolved against it so far (a log
  that lets a theorem say that nothing was resolved).
\<close>

record world =
  stage :: "prim list"
  resolved :: "string list"

text \<open>
  Modelled from the spec: \<open>find_matching_prims\<close> of the \<open>sim\<close> utilities, which are not
  among the sources; the spec (6) has it as \<open>resolveEntities(pathPattern)\<close>, the list of
  the entities at the paths the pattern matches. How a pattern matches a path is the
  parameter \<open>matches\<close>. \<open>XFormPrimView\<close> resolves its pattern the same way.
\<close>

definition find_matching_prims ::
  "(string \<Rightarrow> string \<Rightarrow> bool) \<Rightarrow> string \<Rightarrow> world \<Rightarrow> prim list \<times> world" where
  "find_matching_prims matches pattern w =
     (filter (\<lambda>p. matches pattern (path p)) (stage w), w\<lparr>resolved := resolved w @ [pattern]\<rparr>)"

text \<open>\<open>s.split("/")[-1]\<close>: what follows the last slash.\<close>

definition last_segment :: "string \<Rightarrow> string" where
  "last_segment s = rev (takeWhile (\<lambda>c. c \<noteq> CHR ''/'') (rev s))"

definition plain_char :: "char \<Rightarrow> bool" where
  "plain_char c =
     (let n = (of_char c :: nat)
      in (97 \<le> n \<and> n \<le> 122) \<or> (65 \<le> n \<and> n \<le> 90) \<or> (48 \<le> n \<and> n \<le> 57)
         \<or> c = CHR ''/'' \<or> c = CHR ''_'')"

text \<open>
  \<open>re.match(r"^[a-zA-Z0-9/_]+$", s) is not None\<close>: \<open>$\<close> matches at the end of the
  string and also just before a newline that ends it.
\<close>

definition re_match_plain :: "string \<Rightarrow> bool" where
  "re_match_plain s =
     (let t = (if s \<noteq> [] \<and> last s = CHR 0x0A then butlast s else s)
      in t \<noteq> [] \<and> list_all plain_char t)"

definition UNSUPPORTED_TYPES :: "string list" where
  "UNSUPPORTED_TYPES = [''bounding_box_2d_tight'', ''bounding_box_2d_loose'', ''bounding_box_3d'']"

text \<open>\<open>_check_supported_data_types\<close>: the exception it raises, if any.\<close>

definition check_supported_data_types :: "camera_cfg \<Rightarrow> error option" where
  "check_supported_data_types c =
     (let common_elements = filter (\<lambda>t. t \<in> set UNSUPPORTED_TYPES) (data_types c)
      in if common_elements \<noteq> [] then Some ValueError else None)"

text \<open>The object as \<open>__init__\<close> leaves it: the configuration and the empty list of sensor prims.\<close>

record camera_obj =
  obj_cfg :: camera_cfg
  obj_sensor_prims :: "lens list"

text \<open>
  \<open>Camera.__init__\<close>. \<open>self_cfg\<close> is the attribute \<open>self.cfg\<close>, which the object does not
  have until \<open>SensorBase.__init__\<close> has run; reading an attribute that an object does not
  have raises AttributeError. The message of the first \<open>raise\<close> reads \<open>self.cfg.prim_path\<close>.
  \<open>SensorBase.__init__\<close> is not among the sources: the exception it raises, if any, is the
  parameter \<open>base_init\<close>, and it stores the configuration. \<open>spawn_asset\<close> is the spawning
  of the asset, when the configuration has a spawner. The result is paired with the scene
  graph as the constructor leaves it.
\<close>

definition spawn_asset :: "camera_cfg \<Rightarrow> world \<Rightarrow> world" where
  "spawn_asset c w =
     (case spawn c of
        None \<Rightarrow> w
      | Some func \<Rightarrow>
          let rot_offset =
                convert_orientation_convention (offset_rot c) (offset_convention c) OpenGL
          in w\<lparr>stage := func (prim_path c) (offset_pos c) rot_offset (stage w)\<rparr>)"

definition Camera_init ::
  "(string \<Rightarrow> string \<Rightarrow> bool) \<Rightarrow> (camera_cfg \<Rightarrow> error option) \<Rightarrow> camera_cfg \<Rightarrow> world
     \<Rightarrow> (error + camera_obj) \<times> world" where
  "Camera_init matches base_init c w =
     (let self_cfg = (None :: camera_cfg option);
          sensor_path = last_segment (prim_path c);
          sensor_path_is_regex = (\<not> re_match_plain sensor_path)
      in if sensor_path_is_regex then
           (case self_cfg of
              None \<Rightarrow> (Inl AttributeError, w)
            | Some sc \<Rightarrow> (Inl RuntimeError, w))
         else case check_supported_data_types c of
           Some e \<Rightarrow> (Inl e, w)
         | None \<Rightarrow>
             (case base_init c of
                Some e \<Rightarrow> (Inl e, w)
              | None \<Rightarrow>
                  (case find_matching_prims matches (prim_path c) (spawn_asset c w) of
                     (matching_prims, w2) \<Rightarrow>
                       if length matching_prims = 0 then (Inl RuntimeError, w2)
                       else (Inr \<lparr>obj_cfg = c, obj_sensor_prims = []\<rparr>, w2))))"

text \<open>A dict built from a list of keys holds each key once, in the order of first occurrence.\<close>

definition dict_keys :: "string list \<Rightarrow> string list" where
  "dict_keys xs = rev (remdups (rev xs))"

fun contains :: "string \<Rightarrow> string \<Rightarrow> bool" where
  "contains sub [] = (sub = [])"
| "contains sub (c # cs) = (take (length sub) (c # cs) = sub \<or> contains sub cs)"

definition init_params_for :: "camera_cfg \<Rightarrow> string \<Rightarrow> init_params option" where
  "init_params_for c name =
     (if name \<in> set [''bounding_box_2d_tight'', ''bounding_box_2d_loose'', ''bounding_box_3d'']
      then Some (SemanticTypes (semantic_types c))
      else if name \<in> set [''semantic_segmentation'', ''instance_segmentation'']
      then Some (SemanticTypesColorize (semantic_types c) (colorize c))
      else if name \<in> set [''instance_id_segmentation'']
      then Some (Colorize (colorize c))
      else None)"

text \<open>\<open>_create_buffers\<close>.\<close>

definition create_buffers :: "('a, 'i) camera \<Rightarrow> ('a, 'i) camera outcome" where
  "create_buffers s =
     (case view s of
        None \<Rightarrow> Raises AttributeError s
      | Some v \<Rightarrow>
          let count = length v in
          Returns (s\<lparr>pos_w := replicate count (0, 0, 0),
                     quat_w_world := replicate count (0, 0, 0, 0),
                     intrinsic_matrices := replicate count zeros33,
                     data_image_shape := image_shape s,
                     data_output := [],
                     output_batch_size := count,
                     data_info := replicate count
                       (map (\<lambda>name. (name, PyNone)) (dict_keys (data_types (cfg s))))\<rparr>))"

text \<open>
  The body of the loop of \<open>_initialize_impl\<close> over the prims of the view. Creating the
  render product and the annotators is the capture backend's work: \<open>render_product\<close> gives
  the path of the render product of a camera prim.
\<close>

definition attach_camera_prim ::
  "(string \<Rightarrow> int \<times> int \<Rightarrow> string) \<Rightarrow> string \<Rightarrow> prim \<Rightarrow> ('a, 'i) camera
     \<Rightarrow> ('a, 'i) camera outcome" where
  "attach_camera_prim render_product device_name cam_prim s =
     (if \<not> is_camera cam_prim then Raises RuntimeError s
      else
        let s1 = s\<lparr>sensor_prims := sensor_prims s @ [prim_lens cam_prim]\<rparr>;
            render_prod_path = render_product (path cam_prim) (width (cfg s1), height (cfg s1));
            s2 = s1\<lparr>render_product_paths := render_product_paths s1 @ [render_prod_path]\<rparr>
        in Returns
             (fold (\<lambda>name s3.
                  s3\<lparr>rep_registry :=
                       AList.map_entry name
                         (\<lambda>l. l @ [Annotator name (init_params_for (cfg s3) name) device_name
                                     render_prod_path])
                         (rep_registry s3)\<rparr>)
                (data_types (cfg s2)) s2))"

text \<open>
  \<open>_initialize_impl\<close>. \<open>SensorBase._initialize_impl\<close> is not among the sources: it raises, or
  sets the expected number of environments and the device, and that result is the parameter
  \<open>base\<close>; its timestamps start at zero and every slot starts outdated, as in
  \<open>SensorBase_reset\<close>.

  The device name given to the annotators:
\<close>

definition device_name_of :: "string \<Rightarrow> string" where
  "device_name_of dev =
     (if contains ''cuda'' dev then takeWhile (\<lambda>c. c \<noteq> CHR '':'') dev else ''cpu'')"

text \<open>
  The object when the loop over the prims of the view starts: the view, the index and frame
  buffers and the empty registry are set. The fields of \<open>self._data\<close> are unset until
  \<open>_create_buffers\<close> and empty here.
\<close>

definition camera_before_attach ::
  "camera_obj \<Rightarrow> string \<Rightarrow> nat \<Rightarrow> prim list \<Rightarrow> ('a, 'i) camera" where
  "camera_before_attach obj dev n_envs view_prims =
     (let count = length view_prims
      in \<lparr>cfg = obj_cfg obj, device = dev,
          view = Some (map (\<lambda>p. (prim_pos p, prim_quat p)) view_prims),
          sensor_prims = obj_sensor_prims obj,
          ALL_INDICES = [0..<count],
          frame = replicate count 0,
          timestamp = replicate n_envs 0,
          is_outdated = replicate n_envs True,
          render_product_paths = [],
          rep_registry = map (\<lambda>name. (name, [])) (dict_keys (data_types (obj_cfg obj))),
          pos_w = [], quat_w_world = [], intrinsic_matrices = [],
          data_image_shape = (0, 0), data_output = [], output_batch_size = 0,
          data_info = []\<rparr>)"

definition initialize_impl ::
  "(string \<Rightarrow> string \<Rightarrow> bool) \<Rightarrow> (string \<Rightarrow> int \<times> int \<Rightarrow> string) \<Rightarrow> error + (nat \<times> string)
     \<Rightarrow> camera_obj \<Rightarrow> world \<Rightarrow> (error + ('a, 'i) camera) \<times> world" where
  "initialize_impl matches render_product base obj w =
     (case base of
        Inl e \<Rightarrow> (Inl e, w)
      | Inr (n_envs, dev) \<Rightarrow>
          (case find_matching_prims matches (prim_path (obj_cfg obj)) w of
             (view_prims, w1) \<Rightarrow>
               if length view_prims \<noteq> n_envs then (Inl RuntimeError, w1)
               else
                 case for_each (attach_camera_prim render_product (device_name_of dev)) view_prims
                        (camera_before_attach obj dev n_envs view_prims) of
                   Raises e s1 \<Rightarrow> (Inl e, w1)
                 | Returns s1 \<Rightarrow>
                     (case create_buffers s1 of
                        Raises e s2 \<Rightarrow> (Inl e, w1)
                      | Returns s2 \<Rightarrow> (Inr s2, w1))))"

subsection \<open>The intrinsic matrix of the spec, and an invariant\<close>

text \<open>
  \<open>computeIntrinsics\<close> as the spec (4.2) words it: the field of view is
  2 atan(horizontalAperture / (2 focalLength)), the focal length in pixels is
  width 0.5 / tan(fov / 2), and the matrix is diag(f_px, f_px, 1) with the principal point
  at the centre of the image.
\<close>

definition computeIntrinsics :: "real \<Rightarrow> real \<Rightarrow> int \<Rightarrow> int \<Rightarrow> mat33" where
  "computeIntrinsics focalLength horizontalAperture h w =
     (let fov = 2 * arctan (horizontalAperture / (2 * focalLength));
          f_px = real_of_int w * 0.5 / tan (fov / 2)
      in \<lparr>m00 = f_px, m01 = 0, m02 = real_of_int w / 2,
          m10 = 0, m11 = f_px, m12 = real_of_int h / 2,
          m20 = 0, m21 = 0, m22 = 1\<rparr>)"

text \<open>
  The class writes five entries of an intrinsic matrix and never the other four, which
  are zero from \<open>_create_buffers\<close> on.
\<close>

definition no_skew :: "mat33 \<Rightarrow> bool" where
  "no_skew M = (m01 M = 0 \<and> m10 M = 0 \<and> m20 M = 0 \<and> m21 M = 0)"

subsection \<open>Predicates on the output buffers\<close>

text \<open>The output mapping has a buffer of leading dimension \<open>n\<close> under the key \<open>name\<close>.\<close>

definition allocated :: "('a, 'i) camera \<Rightarrow> nat \<Rightarrow> string \<Rightarrow> bool" where
  "allocated s n name = (\<exists>buf. map_of (data_output s) name = Some buf \<and> length buf = n)"




subsection \<open>Example objects\<close>

definition example_cfg :: camera_cfg where
  "example_cfg =
     \<lparr>prim_path = ''/World/envs/env_.*/Camera'', data_types = [''rgb''],
      height = 480, width = 640, spawn = None,
      offset_pos = (0, 0, 0), offset_rot = (1, 0, 0, 0), offset_convention = Ros,
      semantic_types = [''class''], colorize = False\<rparr>"

definition example_lens :: lens where
  "example_lens =
     \<lparr>focal_length = 2, horizontal_aperture = 4, vertical_aperture = 3,
      horizontal_aperture_offset = 0, vertical_aperture_offset = 0\<rparr>"

text \<open>A camera of two slots whose \<open>rgb\<close> buffer is allocated.\<close>

definition example_camera :: "(nat, string) camera" where
  "example_camera =
     \<lparr>cfg = example_cfg, device = ''cpu'',
      view = Some [((0, 0, 1), (1, 0, 0, 0)), ((5, 0, 1), (0, 1, 0, 0))],
      sensor_prims = [example_lens, example_lens],
      ALL_INDICES = [0, 1],
      frame = [3, 7],
      timestamp = [1, 1],
      is_outdated = [False, False],
      render_product_paths = [''/Render/Product_0'', ''/Render/Product_1''],
      rep_registry =
        [(''rgb'', [Annotator ''rgb'' None ''cpu'' ''/Render/Product_0'',
                    Annotator ''rgb'' None ''cpu'' ''/Render/Product_1''])],
      pos_w = [(0, 0, 0), (0, 0, 0)],
      quat_w_world = [(0, 0, 0, 0), (0, 0, 0, 0)],
      intrinsic_matrices = [zeros33, zeros33],
      data_image_shape = (480, 640),
      data_output =
        [(''rgb'', [Tensor [2, 2] ''cpu'' [10, 10, 10, 10],
                   Tensor [2, 2] ''cpu'' [11, 11, 11, 11]])],
      output_batch_size = 2,
      data_info = [[(''rgb'', PyNone)], [(''rgb'', PyNone)]]\<rparr>"




text \<open>
  For the examples a pattern matches a path when their last segments agree, there is no
  error from the base class, and the render product of a prim is named after its path.
\<close>

definition example_matches :: "string \<Rightarrow> string \<Rightarrow> bool" where
  "example_matches pattern p = (last_segment pattern = last_segment p)"

definition no_base_error :: "camera_cfg \<Rightarrow> error option" where
  "no_base_error c = None"

definition example_render_product :: "string \<Rightarrow> int \<times> int \<Rightarrow> string" where
  "example_render_product p resolution = ''/Render'' @ p"

definition example_prim :: "string \<Rightarrow> bool \<Rightarrow> vec3 \<Rightarrow> prim" where
  "example_prim p cam pos =
     \<lparr>path = p, is_camera = cam, prim_lens = example_lens, prim_pos = pos,
      prim_quat = (1, 0, 0, 0)\<rparr>"

text \<open>A scene graph with two cameras and a light, and an empty one.\<close>

definition example_world :: world where
  "example_world =
     \<lparr>stage = [example_prim ''/World/envs/env_0/Camera'' True (0, 0, 1),
                example_prim ''/World/envs/env_1/Camera'' True (5, 0, 1),
                example_prim ''/World/Light'' False (0, 0, 9)],
      resolved = []\<rparr>"

definition empty_world :: world where
  "empty_world = \<lparr>stage = [], resolved = []\<rparr>"

text \<open>A configuration with a pattern in the leaf and an unsupported type, and one with a plain
  leaf and an unsupported type.\<close>

definition regex_leaf_cfg :: camera_cfg where
  "regex_leaf_cfg =
     example_cfg\<lparr>prim_path := ''/World/envs/env_0/Camera_.*'',
       data_types := [''rgb'', ''bounding_box_3d'']\<rparr>"

definition wildcard_cfg :: camera_cfg where
  "wildcard_cfg = example_cfg\<lparr>prim_path := ''/World/envs/env_0/Camera_.*''\<rparr>"

definition unsupported_cfg :: camera_cfg where
  "unsupported_cfg = example_cfg\<lparr>data_types := [''rgb'', ''bounding_box_3d'']\<rparr>"

text \<open>A capture backend that returns an array for every slot, and one that fails for slot 1.\<close>

definition example_get_data :: "string \<Rightarrow> nat \<Rightarrow> error + (nat, string) payload" where
  "example_get_data name index =
     Inr (Plain (Array (Tensor [2, 2] ''cuda:0''
       [20 + index, 20 + index, 20 + index, 20 + index])))"


text \<open>
  A capture backend that returns an array of shape [2] for slot 0, where the slices of the
  buffer have the shape [2, 2], and fails for slot 1.
\<close>

definition narrow_get_data :: "string \<Rightarrow> nat \<Rightarrow> error + (nat, string) payload" where
  "narrow_get_data name index =
     (if index = 1 then Inl CaptureError
      else Inr (Plain (Array (Tensor [2] ''cuda:0'' [30, 31]))))"


text \<open>The object \<open>__init__\<close> makes of the example configuration, and one whose path is that of the light.\<close>

definition example_obj :: camera_obj where
  "example_obj = \<lparr>obj_cfg = example_cfg, obj_sensor_prims = []\<rparr>"

definition light_obj :: camera_obj where
  "light_obj = \<lparr>obj_cfg = example_cfg\<lparr>prim_path := ''/World/Light''\<rparr>, obj_sensor_prims = []\<rparr>"

text \<open>The camera that initialization makes of the example object on the example scene graph.\<close>

definition fresh_camera :: "(nat, string) camera" where
  "fresh_camera =
     \<lparr>cfg = example_cfg, device = ''cpu'',
      view = Some [((0, 0, 1), (1, 0, 0, 0)), ((5, 0, 1), (1, 0, 0, 0))],
      sensor_prims = [example_lens, example_lens],
      ALL_INDICES = [0, 1],
      frame = [0, 0],
      timestamp = [0, 0],
      is_outdated = [True, True],
      render_product_paths = [''/Render/World/envs/env_0/Camera'', ''/Render/World/envs/env_1/Camera''],
      rep_registry =
        [(''rgb'', [Annotator ''rgb'' None ''cpu'' ''/Render/World/envs/env_0/Camera'',
                    Annotator ''rgb'' None ''cpu'' ''/Render/World/envs/env_1/Camera''])],
      pos_w = [(0, 0, 0), (0, 0, 0)],
      quat_w_world = [(0, 0, 0, 0), (0, 0, 0, 0)],
      intrinsic_matrices = [zeros33, zeros33],
      data_image_shape = (480, 640),
      data_output = [],
      output_batch_size = 2,
      data_info = [[(''rgb'', PyNone)], [(''rgb'', PyNone)]]\<rparr>"


section \<open>Properties\<close>

subsection \<open>Loops\<close>

lemma for_each_invariant:
  assumes "for_each body xs s = Returns s'"
    and "P s"
    and "\<And>x t t'. x \<in> set xs \<Longrightarrow> P t \<Longrightarrow> body x t = Returns t' \<Longrightarrow> P t'"
  shows "P s'"
  using assms
proof (induction xs arbitrary: s)
  case Nil
  then show ?case by simp
next
  case (Cons x xs)
  from Cons.prems(1) obtain s1 where b: "body x s = Returns s1"
    and r: "for_each body xs s1 = Returns s'"
    by (auto split: outcome.splits)
  have "P s1" using Cons.prems(2,3) b by auto
  then show ?case using Cons.IH [OF r] Cons.prems(3) by auto
qed

lemma for_each_final_invariant:
  assumes "P s"
    and "\<And>x t. x \<in> set xs \<Longrightarrow> P t \<Longrightarrow> P (final (body x t))"
  shows "P (final (for_each body xs s))"
  using assms
proof (induction xs arbitrary: s)
  case Nil
  then show ?case by simp
next
  case (Cons x xs)
  have p: "P (final (body x s))" using Cons.prems by simp
  show ?case
  proof (cases "body x s")
    case (Returns s1)
    then have "P s1" using p by simp
    then have "P (final (for_each body xs s1))" using Cons.prems(2) by (intro Cons.IH) auto
    then show ?thesis using Returns by simp
  next
    case (Raises e s1)
    then show ?thesis using p by simp
  qed
qed

lemma and_then_Returns:
  "and_then r f = Returns s' \<longleftrightarrow> (\<exists>t. r = Returns t \<and> f t = Returns s')"
  by (cases r) (simp_all add: and_then_def)

subsection \<open>Intrinsics\<close>

lemma update_intrinsic_matrix_Returns:
  assumes "update_intrinsic_matrix i s = Returns s'"
  shows "s' = s\<lparr>intrinsic_matrices := (intrinsic_matrices s)
            [i := (intrinsic_matrices s ! i)
               \<lparr>m00 := m00 (computeIntrinsics (focal_length (sensor_prims s ! i))
                         (horizontal_aperture (sensor_prims s ! i)) (height (cfg s)) (width (cfg s))),
                m02 := real_of_int (width (cfg s)) * 0.5,
                m11 := m00 (computeIntrinsics (focal_length (sensor_prims s ! i))
                         (horizontal_aperture (sensor_prims s ! i)) (height (cfg s)) (width (cfg s))),
                m12 := real_of_int (height (cfg s)) * 0.5, m22 := 1\<rparr>]\<rparr>"
    and "i < length (intrinsic_matrices s)"
    and "i < length (sensor_prims s)"
  using assms
  by (auto simp: update_intrinsic_matrix_def image_shape_def Let_def computeIntrinsics_def
      split: if_splits)

lemma update_intrinsic_matrix_frame:
  assumes "update_intrinsic_matrix j t = Returns t'"
  shows "sensor_prims t' = sensor_prims t" and "cfg t' = cfg t"
    and "length (intrinsic_matrices t') = length (intrinsic_matrices t)"
  using update_intrinsic_matrix_Returns [OF assms] by simp_all

lemma update_intrinsic_matrix_no_skew:
  assumes "update_intrinsic_matrix j t = Returns t'"
    and "list_all no_skew (intrinsic_matrices t)"
  shows "list_all no_skew (intrinsic_matrices t')"
proof -
  note r = update_intrinsic_matrix_Returns [OF assms(1)]
  show ?thesis
    using assms(2) r(2)
    by (subst r(1)) (auto simp: list_all_length nth_list_update no_skew_def)
qed

lemma update_intrinsic_matrix_hit:
  assumes "update_intrinsic_matrix i t = Returns t'"
    and "no_skew (intrinsic_matrices t ! i)"
  shows "intrinsic_matrices t' ! i =
           computeIntrinsics (focal_length (sensor_prims t ! i))
             (horizontal_aperture (sensor_prims t ! i)) (height (cfg t)) (width (cfg t))"
proof -
  note r = update_intrinsic_matrix_Returns [OF assms(1)]
  show ?thesis
    using assms(2) r(2)
    by (subst r(1)) (simp add: computeIntrinsics_def no_skew_def Let_def)
qed

lemma update_intrinsic_matrix_keeps:
  assumes "update_intrinsic_matrix j t = Returns t'"
    and "intrinsic_matrices t ! i =
           computeIntrinsics (focal_length (sensor_prims t ! i))
             (horizontal_aperture (sensor_prims t ! i)) (height (cfg t)) (width (cfg t))"
    and "i < length (intrinsic_matrices t)"
  shows "intrinsic_matrices t' ! i = intrinsic_matrices t ! i"
proof -
  note r = update_intrinsic_matrix_Returns [OF assms(1)]
  show ?thesis
    using assms(2,3) r(2)
    by (subst r(1)) (simp add: nth_list_update computeIntrinsics_def Let_def)
qed

lemma update_intrinsic_matrices_frame:
  assumes "update_intrinsic_matrices env_ids s = Returns s'"
  shows "sensor_prims s' = sensor_prims s \<and> cfg s' = cfg s \<and>
         length (intrinsic_matrices s') = length (intrinsic_matrices s)"
  using assms unfolding update_intrinsic_matrices_def
  by (rule for_each_invariant) (simp_all add: update_intrinsic_matrix_frame)

lemma update_intrinsic_matrices_no_skew:
  assumes "update_intrinsic_matrices env_ids s = Returns s'"
    and "list_all no_skew (intrinsic_matrices s)"
  shows "list_all no_skew (intrinsic_matrices s')"
  using assms unfolding update_intrinsic_matrices_def
  by (rule for_each_invariant) (simp_all add: update_intrinsic_matrix_no_skew)

lemma for_each_intrinsics_keeps:
  assumes "for_each update_intrinsic_matrix xs t = Returns t'"
    and "intrinsic_matrices t ! i =
           computeIntrinsics (focal_length (sensor_prims t ! i))
             (horizontal_aperture (sensor_prims t ! i)) (height (cfg t)) (width (cfg t))"
    and "i < length (intrinsic_matrices t)"
  shows "intrinsic_matrices t' ! i = intrinsic_matrices t ! i"
proof -
  let ?P = "\<lambda>u. sensor_prims u = sensor_prims t \<and> cfg u = cfg t \<and>
      i < length (intrinsic_matrices u) \<and>
      intrinsic_matrices u ! i = intrinsic_matrices t ! i"
  have "?P t'"
  proof (rule for_each_invariant [OF assms(1), where P = ?P])
    show "?P t" using assms(3) by simp
  next
    fix x u u'
    assume "?P u" and b: "update_intrinsic_matrix x u = Returns u'"
    then show "?P u'"
      using update_intrinsic_matrix_frame [OF b] update_intrinsic_matrix_keeps [OF b, of i]
        assms(2)
      by simp
  qed
  then show ?thesis by simp
qed

lemma update_intrinsic_matrices_computes:
  assumes "update_intrinsic_matrices env_ids s = Returns s'"
    and "i \<in> set env_ids"
    and "list_all no_skew (intrinsic_matrices s)"
  shows "intrinsic_matrices s' ! i =
           computeIntrinsics (focal_length (sensor_prims s ! i))
             (horizontal_aperture (sensor_prims s ! i)) (height (cfg s)) (width (cfg s))"
  using assms unfolding update_intrinsic_matrices_def
proof (induction env_ids arbitrary: s)
  case Nil
  then show ?case by simp
next
  case (Cons x xs)
  from Cons.prems(1) obtain s1 where b: "update_intrinsic_matrix x s = Returns s1"
    and r: "for_each update_intrinsic_matrix xs s1 = Returns s'"
    by (auto split: outcome.splits)
  note fr = update_intrinsic_matrix_frame [OF b]
  show ?case
  proof (cases)
    assume "i = x"
    then have lt: "i < length (intrinsic_matrices s)"
      using update_intrinsic_matrix_Returns(2) [OF b] by simp
    then have "no_skew (intrinsic_matrices s ! i)"
      using Cons.prems(3) by (simp add: list_all_length)
    then have "intrinsic_matrices s1 ! i =
        computeIntrinsics (focal_length (sensor_prims s ! i))
          (horizontal_aperture (sensor_prims s ! i)) (height (cfg s)) (width (cfg s))"
      using update_intrinsic_matrix_hit [of i s s1] b \<open>i = x\<close> by simp
    then show ?thesis
      using for_each_intrinsics_keeps [OF r, of i] fr lt by simp
  next
    assume "i \<noteq> x"
    then have "i \<in> set xs" using Cons.prems(2) by simp
    moreover have "list_all no_skew (intrinsic_matrices s1)"
      using update_intrinsic_matrix_no_skew [OF b Cons.prems(3)] .
    ultimately show ?thesis
      using Cons.IH [OF r] fr by simp
  qed
qed

lemma update_intrinsic_matrix_changes:
  "\<exists>M. final (update_intrinsic_matrix i s) = s\<lparr>intrinsic_matrices := M\<rparr> \<and>
       length M = length (intrinsic_matrices s)"
proof (cases "update_intrinsic_matrix i s")
  case (Returns t)
  from update_intrinsic_matrix_Returns(1) [OF this] Returns show ?thesis
    by auto
next
  case (Raises e t)
  then have "t = s"
    by (auto simp: update_intrinsic_matrix_def Let_def image_shape_def split: if_splits)
  then have "final (update_intrinsic_matrix i s) = s\<lparr>intrinsic_matrices := intrinsic_matrices s\<rparr>"
    using Raises by simp
  then show ?thesis by blast
qed

lemma update_intrinsic_matrices_changes:
  "\<exists>M. final (update_intrinsic_matrices env_ids s) = s\<lparr>intrinsic_matrices := M\<rparr> \<and>
       length M = length (intrinsic_matrices s)"
  unfolding update_intrinsic_matrices_def
proof (rule for_each_final_invariant)
  show "\<exists>M. s = s\<lparr>intrinsic_matrices := M\<rparr> \<and> length M = length (intrinsic_matrices s)"
    by (rule exI [where x = "intrinsic_matrices s"]) simp
next
  fix x t
  assume "\<exists>M. t = s\<lparr>intrinsic_matrices := M\<rparr> \<and> length M = length (intrinsic_matrices s)"
  then obtain M where t: "t = s\<lparr>intrinsic_matrices := M\<rparr>"
    and l: "length M = length (intrinsic_matrices s)" by blast
  from update_intrinsic_matrix_changes [of x t] obtain M' where
    "final (update_intrinsic_matrix x t) = t\<lparr>intrinsic_matrices := M'\<rparr>"
    and "length M' = length (intrinsic_matrices t)" by blast
  then show "\<exists>M. final (update_intrinsic_matrix x t) = s\<lparr>intrinsic_matrices := M\<rparr> \<and>
      length M = length (intrinsic_matrices s)"
    using t l by auto
qed

lemma create_buffers_no_skew:
  assumes "create_buffers s = Returns s'"
  shows "list_all no_skew (intrinsic_matrices s')"
  using assms
  by (auto simp: create_buffers_def Let_def no_skew_def zeros33_def list_all_length
      split: option.splits)

text \<open>
  The refresh of the intrinsics returns when every requested slot exists and its lens has
  a focal length and a horizontal aperture other than zero.
\<close>

lemma update_intrinsic_matrices_returns:
  assumes "\<forall>i\<in>set env_ids. i < length (sensor_prims s) \<and> i < length (intrinsic_matrices s) \<and>
             focal_length (sensor_prims s ! i) \<noteq> 0 \<and> horizontal_aperture (sensor_prims s ! i) \<noteq> 0"
  shows "\<exists>s'. update_intrinsic_matrices env_ids s = Returns s'"
  using assms unfolding update_intrinsic_matrices_def
proof (induction env_ids arbitrary: s)
  case Nil
  then show ?case by simp
next
  case (Cons x xs)
  from Cons.prems obtain s1 where b: "update_intrinsic_matrix x s = Returns s1"
    by (auto simp: update_intrinsic_matrix_def image_shape_def Let_def tan_arctan)
  note fr = update_intrinsic_matrix_frame [OF b]
  have "\<exists>s'. for_each update_intrinsic_matrix xs s1 = Returns s'"
    using Cons.prems fr by (intro Cons.IH) simp
  then show ?case using b by simp
qed




subsection \<open>Outcomes\<close>

lemma Returns_final: "raised r = None \<Longrightarrow> r = Returns (final r)"
  by (cases r) simp_all

subsection \<open>Indexed assignment\<close>

lemma fold_put_length:
  "length (fold (\<lambda>(i, v) acc. acc[i := v]) ivs t) = length t"
  by (induction ivs arbitrary: t) (auto split: prod.splits)

lemma fold_put_untouched:
  "j \<notin> fst ` set ivs \<Longrightarrow> fold (\<lambda>(i, v) acc. acc[i := v]) ivs t ! j = t ! j"
  by (induction ivs arbitrary: t) (auto split: prod.splits)

lemma fold_put_by_index:
  assumes "\<forall>i\<in>set ids. i < length t"
  shows "fold (\<lambda>(i, v) acc. acc[i := v]) (zip ids (map g ids)) t ! j =
           (if j \<in> set ids then g j else t ! j)"
  using assms
proof (induction ids arbitrary: t)
  case Nil
  then show ?case by simp
next
  case (Cons x xs)
  have "\<forall>i\<in>set xs. i < length (t[x := g x])" using Cons.prems by simp
  from Cons.IH [OF this] show ?case using Cons.prems by (auto simp: nth_list_update)
qed

lemma fold_put_distinct:
  assumes "distinct ids" and "length vals = length ids" and "\<forall>i\<in>set ids. i < length t"
    and "k < length ids"
  shows "fold (\<lambda>(i, v) acc. acc[i := v]) (zip ids vals) t ! (ids ! k) = vals ! k"
  using assms
proof (induction ids arbitrary: t vals k)
  case Nil
  then show ?case by simp
next
  case (Cons x xs)
  then obtain y ys where v: "vals = y # ys" by (cases vals) auto
  show ?case
  proof (cases k)
    case 0
    have "x \<notin> fst ` set (zip xs ys)" using Cons.prems(1) by (auto dest: set_zip_leftD)
    then show ?thesis using 0 v Cons.prems(3) by (simp add: fold_put_untouched)
  next
    case (Suc k')
    have "fold (\<lambda>(i, v) acc. acc[i := v]) (zip xs ys) (t[x := y]) ! (xs ! k') = ys ! k'"
      using Cons.prems v Suc by (intro Cons.IH) auto
    then show ?thesis using Suc v by simp
  qed
qed

lemma index_put_Inr:
  assumes "index_put t ids vals = Inr t'"
  shows "length t' = length t" and "\<forall>i\<in>set ids. i < length t" and "length vals = length ids"
    and "t' = fold (\<lambda>(i, v) acc. acc[i := v]) (zip ids vals) t"
  using assms
  by (auto simp: index_put_def list_ex_iff fold_put_length not_le split: if_splits)

lemma index_put_untouched:
  assumes "index_put t ids vals = Inr t'" and "j \<notin> set ids"
  shows "t' ! j = t ! j"
proof -
  have "j \<notin> fst ` set (zip ids vals)" using assms(2) by (auto dest: set_zip_leftD)
  then show ?thesis using index_put_Inr(4) [OF assms(1)] by (simp add: fold_put_untouched)
qed

lemma index_put_by_index:
  assumes "index_put t ids (map g ids) = Inr t'" and "j \<in> set ids"
  shows "t' ! j = g j"
  using index_put_Inr(2,4) [OF assms(1)] assms(2) by (simp add: fold_put_by_index)

lemma index_put_distinct:
  assumes "index_put t ids vals = Inr t'" and "distinct ids" and "k < length ids"
  shows "t' ! (ids ! k) = vals ! k"
  using index_put_Inr [OF assms(1)] assms(2,3) by (simp add: fold_put_distinct)

subsection \<open>Poses\<close>

lemma update_poses_Returns:
  assumes "update_poses env_ids s = Returns s'"
  shows "\<exists>v p q. view s = Some v \<and>
           index_put (pos_w s) env_ids (map (\<lambda>i. fst (v ! i)) env_ids) = Inr p \<and>
           index_put (quat_w_world s) env_ids
             (map (\<lambda>i. convert_orientation_convention (snd (v ! i)) OpenGL World) env_ids) = Inr q \<and>
           s' = s\<lparr>pos_w := p, quat_w_world := q\<rparr>"
  using assms
  by (auto simp: update_poses_def Let_def comp_def split: if_splits option.splits sum.splits)

lemma update_poses_stores:
  assumes "update_poses env_ids s = Returns s'" and "view s = Some v" and "i \<in> set env_ids"
  shows "pos_w s' ! i = fst (v ! i) \<and>
         quat_w_world s' ! i = convert_orientation_convention (snd (v ! i)) OpenGL World"
proof -
  from update_poses_Returns [OF assms(1)] assms(2) obtain p q where
    p: "index_put (pos_w s) env_ids (map (\<lambda>i. fst (v ! i)) env_ids) = Inr p" and
    q: "index_put (quat_w_world s) env_ids
             (map (\<lambda>i. convert_orientation_convention (snd (v ! i)) OpenGL World) env_ids) = Inr q" and
    s': "s' = s\<lparr>pos_w := p, quat_w_world := q\<rparr>"
    by auto
  show ?thesis
    using index_put_by_index [OF p assms(3)] index_put_by_index [OF q assms(3)] s' by simp
qed


lemma view_set_world_poses_Inr:
  assumes "view_set_world_poses v positions orientations ids = Inr v'"
  shows "\<exists>ps' qs'. v' = zip ps' qs' \<and> length ps' = length v \<and> length qs' = length v \<and>
           (case positions of None \<Rightarrow> ps' = map fst v
            | Some ps \<Rightarrow> index_put (map fst v) ids ps = Inr ps') \<and>
           (case orientations of None \<Rightarrow> qs' = map snd v
            | Some qs \<Rightarrow> index_put (map snd v) ids qs = Inr qs')"
  using assms
  by (auto simp: view_set_world_poses_def split: option.splits sum.splits
      dest: index_put_Inr(1))

lemma set_world_poses_Returns:
  assumes "set_world_poses positions orientations env_ids conv s = Returns s'"
    and "view s = Some v"
  shows "\<exists>ps' qs'. s' = s\<lparr>view := Some (zip ps' qs')\<rparr> \<and>
           length ps' = length v \<and> length qs' = length v \<and>
           (case positions of None \<Rightarrow> ps' = map fst v
            | Some ps \<Rightarrow>
                index_put (map fst v)
                  (case env_ids of None \<Rightarrow> ALL_INDICES s | Some ids \<Rightarrow> ids) ps = Inr ps') \<and>
           (case orientations of None \<Rightarrow> qs' = map snd v
            | Some qs \<Rightarrow>
                index_put (map snd v)
                  (case env_ids of None \<Rightarrow> ALL_INDICES s | Some ids \<Rightarrow> ids)
                  (map (\<lambda>q. convert_orientation_convention q conv OpenGL) qs) = Inr qs')"
proof -
  let ?ids = "case env_ids of None \<Rightarrow> ALL_INDICES s | Some ids \<Rightarrow> ids"
  let ?ogl = "case orientations of None \<Rightarrow> None
     | Some qs \<Rightarrow> Some (map (\<lambda>q. convert_orientation_convention q conv OpenGL) qs)"
  from assms obtain v' where v': "view_set_world_poses v positions ?ogl ?ids = Inr v'"
    and s': "s' = s\<lparr>view := Some v'\<rparr>"
    by (auto simp: set_world_poses_def Let_def split: sum.splits)
  from view_set_world_poses_Inr [OF v'] s' show ?thesis
    by (cases orientations) auto
qed

lemma index_put_all:
  assumes "index_put t [0..<length t] vals = Inr t'"
  shows "t' = vals"
proof (rule nth_equalityI)
  show "length t' = length vals" using index_put_Inr(1,3) [OF assms] by simp
next
  fix i assume "i < length t'"
  then have i: "i < length [0..<length t]" using index_put_Inr(1) [OF assms] by simp
  from index_put_distinct [OF assms _ i] i show "t' ! i = vals ! i" by simp
qed


text \<open>
  Claim C10. Let \<open>set_world_poses\<close> return on a camera whose view holds the poses \<open>v\<close>.
  With \<open>positions = None\<close> the position of every slot is as before, and the given
  orientations, converted to opengl, are written at the addressed slots. With
  \<open>orientations = None\<close> the orientation of every slot is as before, and the given
  positions are written at the addressed slots. With \<open>env_ids = None\<close> the call addresses
  \<open>ALL_INDICES\<close>, which are the slots 0 to N - 1 (lemma \<open>initialize_impl_Inr\<close>): all N
  slots are written.
\<close>

theorem set_world_poses_none_arguments:
  assumes "view s = Some v"
    and "ids = (case env_ids of None \<Rightarrow> ALL_INDICES s | Some given \<Rightarrow> given)"
  shows "(set_world_poses None orientations env_ids conv s = Returns s' \<longrightarrow>
            (\<exists>v'. view s' = Some v' \<and> map fst v' = map fst v)) \<and>
         (set_world_poses None (Some qs) env_ids conv s = Returns s' \<and> distinct ids \<longrightarrow>
            (\<forall>k<length ids. snd (the (view s') ! (ids ! k)) =
               convert_orientation_convention (qs ! k) conv OpenGL)) \<and>
         (set_world_poses positions None env_ids conv s = Returns s' \<longrightarrow>
            (\<exists>v'. view s' = Some v' \<and> map snd v' = map snd v)) \<and>
         (set_world_poses (Some ps) None env_ids conv s = Returns s' \<and> distinct ids \<longrightarrow>
            (\<forall>k<length ids. fst (the (view s') ! (ids ! k)) = ps ! k)) \<and>
         (set_world_poses (Some ps) (Some qs) None conv s = Returns s' \<and>
            ALL_INDICES s = [0..<length v] \<longrightarrow>
            view s' = Some (zip ps (map (\<lambda>q. convert_orientation_convention q conv OpenGL) qs)) \<and>
            length ps = length v \<and> length qs = length v)"
proof (intro conjI impI allI)
  assume "set_world_poses None orientations env_ids conv s = Returns s'"
  from set_world_poses_Returns [OF this assms(1)]
  show "\<exists>v'. view s' = Some v' \<and> map fst v' = map fst v" by auto
next
  fix k
  assume a: "set_world_poses None (Some qs) env_ids conv s = Returns s' \<and> distinct ids"
    and k: "k < length ids"
  from set_world_poses_Returns [of None "Some qs" env_ids conv s s' v] a assms
  obtain ps' qs' where s': "s' = s\<lparr>view := Some (zip ps' qs')\<rparr>"
    and l: "length ps' = length v" "length qs' = length v"
    and q: "index_put (map snd v) ids
              (map (\<lambda>q. convert_orientation_convention q conv OpenGL) qs) = Inr qs'"
    by auto
  have "ids ! k < length v" using index_put_Inr(2) [OF q] k by simp
  moreover have "k < length qs" using index_put_Inr(3) [OF q] k by simp
  ultimately show "snd (the (view s') ! (ids ! k)) =
      convert_orientation_convention (qs ! k) conv OpenGL"
    using index_put_distinct [OF q _ k] a s' l by simp
next
  assume "set_world_poses positions None env_ids conv s = Returns s'"
  from set_world_poses_Returns [OF this assms(1)]
  show "\<exists>v'. view s' = Some v' \<and> map snd v' = map snd v" by auto
next
  fix k
  assume a: "set_world_poses (Some ps) None env_ids conv s = Returns s' \<and> distinct ids"
    and k: "k < length ids"
  from set_world_poses_Returns [of "Some ps" None env_ids conv s s' v] a assms
  obtain ps' qs' where s': "s' = s\<lparr>view := Some (zip ps' qs')\<rparr>"
    and l: "length ps' = length v" "length qs' = length v"
    and p: "index_put (map fst v) ids ps = Inr ps'"
    by auto
  have "ids ! k < length v" using index_put_Inr(2) [OF p] k by simp
  then show "fst (the (view s') ! (ids ! k)) = ps ! k"
    using index_put_distinct [OF p _ k] a s' l by simp
next
  assume a: "set_world_poses (Some ps) (Some qs) None conv s = Returns s' \<and>
            ALL_INDICES s = [0..<length v]"
  from set_world_poses_Returns [of "Some ps" "Some qs" None conv s s' v] a assms
  obtain ps' qs' where s': "s' = s\<lparr>view := Some (zip ps' qs')\<rparr>"
    and p: "index_put (map fst v) [0..<length (map fst v)] ps = Inr ps'"
    and q: "index_put (map snd v) [0..<length (map snd v)]
              (map (\<lambda>q. convert_orientation_convention q conv OpenGL) qs) = Inr qs'"
    by auto
  from index_put_all [OF p] index_put_all [OF q] s'
  show "view s' = Some (zip ps (map (\<lambda>q. convert_orientation_convention q conv OpenGL) qs))"
    by simp
  from index_put_Inr(3) [OF p] show "length ps = length v" by simp
  from index_put_Inr(3) [OF q] show "length qs = length v" by simp
qed

theorem set_world_poses_none_arguments_witness:
  "(\<exists>v'. view (final (set_world_poses None (Some [(1, 0, 0, 0)]) (Some [1]) Ros example_camera))
            = Some v' \<and> map fst v' = [(0, 0, 1), (5, 0, 1)]) \<and>
   snd (the (view (final (set_world_poses None (Some [(1, 0, 0, 0)]) (Some [1]) Ros
      example_camera))) ! 1) = (0, -1, 0, 0) \<and>
   (\<exists>v'. view (final (set_world_poses (Some [(9, 9, 9)]) None (Some [0]) Ros example_camera))
            = Some v' \<and> map snd v' = [(1, 0, 0, 0), (0, 1, 0, 0)]) \<and>
   fst (the (view (final (set_world_poses (Some [(9, 9, 9)]) None (Some [0]) Ros
      example_camera))) ! 0) = (9, 9, 9) \<and>
   view (final (set_world_poses (Some [(1, 2, 3), (4, 5, 6)]) (Some [(1, 0, 0, 0), (0, 1, 0, 0)])
      None OpenGL example_camera)) = Some [((1, 2, 3), (1, 0, 0, 0)), ((4, 5, 6), (0, 1, 0, 0))]"
proof -
  let ?V = "[((0, 0, 1), (1, 0, 0, 0)), ((5, 0, 1), (0, 1, 0, 0))] :: (vec3 \<times> quat) list"
  let ?c1 = "set_world_poses None (Some [(1, 0, 0, 0)]) (Some [1]) Ros example_camera"
  let ?c2 = "set_world_poses (Some [(9, 9, 9)]) None (Some [0]) Ros example_camera"
  let ?c3 = "set_world_poses (Some [(1, 2, 3), (4, 5, 6)]) (Some [(1, 0, 0, 0), (0, 1, 0, 0)])
      None OpenGL example_camera"
  have v: "view example_camera = Some ?V"
    by (simp add: example_camera_def)
  have a: "ALL_INDICES example_camera = [0..<length ?V]"
    by (simp add: example_camera_def upt_rec)
  have "raised ?c1 = None"
    by (simp add: set_world_poses_def view_set_world_poses_def index_put_def example_camera_def)
  then obtain s1 where r1: "?c1 = Returns s1" using Returns_final by blast
  have "raised ?c2 = None"
    by (simp add: set_world_poses_def view_set_world_poses_def index_put_def example_camera_def)
  then obtain s2 where r2: "?c2 = Returns s2" using Returns_final by blast
  have "raised ?c3 = None"
    by (simp add: set_world_poses_def view_set_world_poses_def index_put_def example_camera_def)
  then obtain s3 where r3: "?c3 = Returns s3" using Returns_final by blast
  have i1: "[1] = (case Some [1::nat] of None \<Rightarrow> ALL_INDICES example_camera | Some given \<Rightarrow> given)"
    by simp
  have i2: "[0] = (case Some [0::nat] of None \<Rightarrow> ALL_INDICES example_camera | Some given \<Rightarrow> given)"
    by simp
  have i3: "ALL_INDICES example_camera =
      (case None of None \<Rightarrow> ALL_INDICES example_camera | Some given \<Rightarrow> given)"
    by simp
  note t1 = set_world_poses_none_arguments [OF v i1, where orientations = "Some [(1, 0, 0, 0)]"
      and qs = "[(1, 0, 0, 0)]" and conv = Ros and s' = s1]
  note t2 = set_world_poses_none_arguments [OF v i2, where positions = "Some [(9, 9, 9)]"
      and ps = "[(9, 9, 9)]" and conv = Ros and s' = s2]
  note t3 = set_world_poses_none_arguments [OF v i3, where ps = "[(1, 2, 3), (4, 5, 6)]"
      and qs = "[(1, 0, 0, 0), (0, 1, 0, 0)]" and conv = OpenGL and s' = s3]
  have f1: "(\<exists>v'. view s1 = Some v' \<and> map fst v' = map fst ?V) \<and>
      snd (the (view s1) ! ([1] ! 0)) = convert_orientation_convention ([(1, 0, 0, 0)] ! 0) Ros OpenGL"
    using t1 r1 by simp
  have f2: "(\<exists>v'. view s2 = Some v' \<and> map snd v' = map snd ?V) \<and>
      fst (the (view s2) ! ([0] ! 0)) = [(9, 9, 9)] ! 0"
    using t2 r2 by simp
  have f3: "view s3 = Some (zip [(1, 2, 3), (4, 5, 6)]
      (map (\<lambda>q. convert_orientation_convention q OpenGL OpenGL) [(1, 0, 0, 0), (0, 1, 0, 0)]))"
    using t3 r3 a by blast
  have g: "final ?c1 = s1" "final ?c2 = s2" "final ?c3 = s3"
    using r1 r2 r3 by simp_all
  show ?thesis
    unfolding g using f1 f2 f3
    by (simp add: convert_orientation_convention_def quat_mul_def)
qed

lemma update_poses_changes:
  "\<exists>p q. final (update_poses env_ids s) = s\<lparr>pos_w := p, quat_w_world := q\<rparr>"
proof (cases "update_poses env_ids s")
  case (Returns t)
  from update_poses_Returns [OF this] Returns show ?thesis by auto
next
  case (Raises e t)
  then have "t = s \<or> (\<exists>p. t = s\<lparr>pos_w := p\<rparr>)"
    by (auto simp: update_poses_def Let_def split: if_splits option.splits sum.splits)
  then have "t = s\<lparr>pos_w := pos_w t, quat_w_world := quat_w_world s\<rparr>"
    by auto
  then show ?thesis using Raises by (metis final.simps(2))
qed

subsection \<open>Reset\<close>

lemma SensorBase_reset_changes:
  "\<exists>ts od. final (SensorBase_reset env_ids s) = s\<lparr>timestamp := ts, is_outdated := od\<rparr>"
proof -
  have "final (SensorBase_reset env_ids s) = s \<or>
        (\<exists>ts. final (SensorBase_reset env_ids s) = s\<lparr>timestamp := ts\<rparr>) \<or>
        (\<exists>ts od. final (SensorBase_reset env_ids s) = s\<lparr>timestamp := ts, is_outdated := od\<rparr>)"
    by (auto simp: SensorBase_reset_def Let_def split: sum.splits)
  moreover have "s = s\<lparr>timestamp := timestamp s, is_outdated := is_outdated s\<rparr>" by simp
  moreover have "\<And>ts. s\<lparr>timestamp := ts\<rparr> = s\<lparr>timestamp := ts, is_outdated := is_outdated s\<rparr>"
    by simp
  ultimately show ?thesis by metis
qed

lemma reset_Returns:
  assumes "reset env_ids s = Returns s'"
    and "ids = (case env_ids of None \<Rightarrow> ALL_INDICES s | Some given \<Rightarrow> given)"
  shows "\<exists>ts od s1 s2 fr.
           update_poses ids (s\<lparr>timestamp := ts, is_outdated := od\<rparr>) = Returns s1 \<and>
           update_intrinsic_matrices ids s1 = Returns s2 \<and>
           index_fill (frame s2) ids 0 = Inr fr \<and> s' = s2\<lparr>frame := fr\<rparr>"
proof -
  from assms(1) obtain s0 where b: "SensorBase_reset env_ids s = Returns s0"
    and rest: "and_then (update_poses (case env_ids of None \<Rightarrow> ALL_INDICES s0 | Some given \<Rightarrow> given) s0)
       (\<lambda>s1. and_then (update_intrinsic_matrices
            (case env_ids of None \<Rightarrow> ALL_INDICES s0 | Some given \<Rightarrow> given) s1)
         (\<lambda>s2. case index_fill (frame s2)
              (case env_ids of None \<Rightarrow> ALL_INDICES s0 | Some given \<Rightarrow> given) 0 of
            Inl e \<Rightarrow> Raises e s2
          | Inr fr \<Rightarrow> Returns (s2\<lparr>frame := fr\<rparr>))) = Returns s'"
    by (auto simp: reset_def and_then_Returns Let_def)
  from SensorBase_reset_changes [of env_ids s] b obtain ts od where
    s0: "s0 = s\<lparr>timestamp := ts, is_outdated := od\<rparr>" by auto
  then have ids: "(case env_ids of None \<Rightarrow> ALL_INDICES s0 | Some given \<Rightarrow> given) = ids"
    using assms(2) by (simp split: option.splits)
  from rest [unfolded ids] obtain s1 s2 where p: "update_poses ids s0 = Returns s1"
    and m: "update_intrinsic_matrices ids s1 = Returns s2"
    and f: "(case index_fill (frame s2) ids 0 of
               Inl e \<Rightarrow> Raises e s2
             | Inr fr \<Rightarrow> Returns (s2\<lparr>frame := fr\<rparr>)) = Returns s'"
    by (auto simp: and_then_Returns)
  from f obtain fr where "index_fill (frame s2) ids 0 = Inr fr" and "s' = s2\<lparr>frame := fr\<rparr>"
    by (cases "index_fill (frame s2) ids 0") auto
  then show ?thesis using p m s0 by blast
qed

text \<open>
  Claim C6. When \<open>reset\<close> returns for the slots \<open>ids\<close> (all slots for \<open>None\<close>): the frame
  counter of every slot of \<open>ids\<close> is zero, every other frame counter is as before, the
  output buffers are as before, and every slot of \<open>ids\<close> holds the pose pulled from the
  view (orientation in the world convention) and the intrinsic matrix computed from its
  lens.
\<close>

theorem reset_effect:
  assumes "reset env_ids s = Returns s'"
    and "ids = (case env_ids of None \<Rightarrow> ALL_INDICES s | Some given \<Rightarrow> given)"
    and "view s = Some v"
    and "list_all no_skew (intrinsic_matrices s)"
  shows "(\<forall>i\<in>set ids. frame s' ! i = 0) \<and>
         length (frame s') = length (frame s) \<and>
         (\<forall>i. i \<notin> set ids \<longrightarrow> frame s' ! i = frame s ! i) \<and>
         data_output s' = data_output s \<and>
         (\<forall>i\<in>set ids.
            pos_w s' ! i = fst (v ! i) \<and>
            quat_w_world s' ! i = convert_orientation_convention (snd (v ! i)) OpenGL World \<and>
            intrinsic_matrices s' ! i =
              computeIntrinsics (focal_length (sensor_prims s ! i))
                (horizontal_aperture (sensor_prims s ! i)) (height (cfg s)) (width (cfg s)))"
proof -
  from reset_Returns [OF assms(1,2)] obtain ts od s1 s2 fr where
    p: "update_poses ids (s\<lparr>timestamp := ts, is_outdated := od\<rparr>) = Returns s1" and
    m: "update_intrinsic_matrices ids s1 = Returns s2" and
    f: "index_fill (frame s2) ids 0 = Inr fr" and
    s': "s' = s2\<lparr>frame := fr\<rparr>"
    by blast
  let ?s0 = "s\<lparr>timestamp := ts, is_outdated := od\<rparr>"
  from update_poses_changes [of ids ?s0] p obtain pw qw where
    s1: "s1 = ?s0\<lparr>pos_w := pw, quat_w_world := qw\<rparr>" by auto
  from update_intrinsic_matrices_changes [of ids s1] m obtain M where
    s2: "s2 = s1\<lparr>intrinsic_matrices := M\<rparr>" by auto
  have fr: "index_put (frame s) ids (map (\<lambda>_. 0) ids) = Inr fr"
    using f s1 s2 by (simp add: index_fill_def)
  have poses: "pos_w s1 ! i = fst (v ! i) \<and>
      quat_w_world s1 ! i = convert_orientation_convention (snd (v ! i)) OpenGL World"
    if "i \<in> set ids" for i
    using update_poses_stores [OF p _ that, of v] assms(3) by simp
  have intr: "intrinsic_matrices s2 ! i =
      computeIntrinsics (focal_length (sensor_prims s ! i))
        (horizontal_aperture (sensor_prims s ! i)) (height (cfg s)) (width (cfg s))"
    if "i \<in> set ids" for i
    using update_intrinsic_matrices_computes [OF m that] assms(4) s1 by simp
  show ?thesis
  proof (intro conjI ballI allI impI)
    fix i assume "i \<in> set ids"
    then show "frame s' ! i = 0" using index_put_by_index [OF fr] s' by simp
  next
    show "length (frame s') = length (frame s)" using index_put_Inr(1) [OF fr] s' by simp
  next
    fix i assume "i \<notin> set ids"
    then show "frame s' ! i = frame s ! i" using index_put_untouched [OF fr] s' by simp
  next
    show "data_output s' = data_output s" using s' s2 s1 by simp
  next
    fix i assume i: "i \<in> set ids"
    show "pos_w s' ! i = fst (v ! i)" using poses [OF i] s' s2 by simp
    show "quat_w_world s' ! i = convert_orientation_convention (snd (v ! i)) OpenGL World"
      using poses [OF i] s' s2 by simp
    show "intrinsic_matrices s' ! i =
        computeIntrinsics (focal_length (sensor_prims s ! i))
          (horizontal_aperture (sensor_prims s ! i)) (height (cfg s)) (width (cfg s))"
      using intr [OF i] s' by simp
  qed
qed


theorem reset_effect_witness:
  "\<exists>s'. reset (Some [1]) example_camera = Returns s' \<and>
        frame s' ! 1 = 0 \<and> frame s' ! 0 = 3 \<and> length (frame s') = 2 \<and>
        data_output s' = [(''rgb'', [Tensor [2, 2] ''cpu'' [10, 10, 10, 10], Tensor [2, 2] ''cpu'' [11, 11, 11, 11]])] \<and>
        pos_w s' ! 1 = (5, 0, 1) \<and> quat_w_world s' ! 1 = (1/2, 1/2, -1/2, 1/2) \<and>
        intrinsic_matrices s' ! 1 =
          \<lparr>m00 = 320, m01 = 0, m02 = 320, m10 = 0, m11 = 320, m12 = 240,
           m20 = 0, m21 = 0, m22 = 1\<rparr>"
proof -
  have "raised (reset (Some [1]) example_camera) = None"
    by (simp add: reset_def SensorBase_reset_def index_fill_def index_put_def and_then_def
        update_poses_def update_intrinsic_matrices_def update_intrinsic_matrix_def image_shape_def
        example_camera_def example_cfg_def example_lens_def Let_def tan_arctan)
  then obtain s' where r: "reset (Some [1]) example_camera = Returns s'"
    using Returns_final by blast
  have i: "[1] = (case Some [1::nat] of None \<Rightarrow> ALL_INDICES example_camera | Some given \<Rightarrow> given)"
    by simp
  have v: "view example_camera = Some [((0, 0, 1), (1, 0, 0, 0)), ((5, 0, 1), (0, 1, 0, 0))]"
    by (simp add: example_camera_def)
  have n: "list_all no_skew (intrinsic_matrices example_camera)"
    by (simp add: example_camera_def no_skew_def zeros33_def)
  from reset_effect [OF r i v n] r show ?thesis
    by (simp add: example_camera_def example_cfg_def example_lens_def computeIntrinsics_def
        convert_orientation_convention_def quat_mul_def tan_arctan Let_def)
qed


subsection \<open>Annotator output\<close>

text \<open>
  Claim C9. A dict payload that carries an array under \<open>data\<close> and an object under
  \<open>info\<close> yields that array and that object; a payload that is an array yields the array
  and no info (\<open>None\<close>); and whatever payload the processing accepts is of one of these
  two kinds, and the data it returns is on the device of the batch, with the shape and
  contents of the array received.
\<close>

theorem process_annotator_output_pair:
  "(map_of d ''data'' = Some (Array raw) \<and> map_of d ''info'' = Some meta \<longrightarrow>
      process_annotator_output dev (Dict d) = Inr (Tensor (shape raw) dev (contents raw), meta)) \<and>
   process_annotator_output dev (Plain (Array raw)) =
      Inr (Tensor (shape raw) dev (contents raw), PyNone) \<and>
   (process_annotator_output dev out = Inr (data, info) \<longrightarrow>
      device_of data = dev \<and>
      (case out of
         Dict m \<Rightarrow>
           \<exists>a. map_of m ''data'' = Some (Array a) \<and> map_of m ''info'' = Some info \<and>
               data = Tensor (shape a) dev (contents a)
       | Plain p \<Rightarrow>
           \<exists>a. p = Array a \<and> info = PyNone \<and> data = Tensor (shape a) dev (contents a)))"
  by (auto simp: process_annotator_output_def convert_to_torch_def
      split: payload.splits option.splits pyobj.splits sum.splits)

theorem process_annotator_output_pair_witness:
  "process_annotator_output ''cpu''
      (Dict [(''data'', Array (Tensor [2, 2] ''cuda:0'' [5, 5, 5, 5::nat])), (''info'', Other ''labels'')]) =
      Inr (Tensor [2, 2] ''cpu'' [5, 5, 5, 5], Other ''labels'') \<and>
   process_annotator_output ''cpu'' (Plain (Array (Tensor [2, 2] ''cuda:0'' [5, 5, 5, 5::nat])) :: (nat, string) payload) =
      Inr (Tensor [2, 2] ''cpu'' [5, 5, 5, 5], PyNone) \<and>
   device_of (Tensor [2, 2] ''cpu'' [5, 5, 5, 5::nat]) = ''cpu'' \<and>
   (\<exists>a. map_of [(''data'', Array (Tensor [2, 2] ''cuda:0'' [5, 5, 5, 5::nat])),
                 (''info'', Other ''labels'')] ''data'' = Some (Array a) \<and>
        Tensor [2, 2] ''cpu'' [5, 5, 5, 5] = Tensor (shape a) ''cpu'' (contents a))"
proof -
  let ?d = "[(''data'', Array (Tensor [2, 2] ''cuda:0'' [5, 5, 5, 5::nat])), (''info'', Other ''labels'')]"
  note t = process_annotator_output_pair [where d = ?d and raw = "Tensor [2, 2] ''cuda:0'' [5, 5, 5, 5]"
      and meta = "Other ''labels''" and dev = "''cpu''"
      and out = "Dict ?d" and data = "Tensor [2, 2] ''cpu'' [5, 5, 5, 5]" and info = "Other ''labels''"]
  from t show ?thesis by simp
qed

subsection \<open>Construction and initialization\<close>

text \<open>
  With a pattern in the leaf of the path, \<open>__init__\<close> means to raise RuntimeError, but the
  message of that exception reads \<open>self.cfg\<close> before the attribute exists, and what is
  raised is AttributeError.
\<close>

lemma leaf_regex_raises_AttributeError:
  assumes "\<not> re_match_plain (last_segment (prim_path c))"
  shows "Camera_init matches base_init c w = (Inl AttributeError, w)"
  using assms by (simp add: Camera_init_def)

text \<open>
  Claim C7, amended. For a configuration whose path has a plain leaf and whose output
  types include an unsupported type, construction raises ValueError, and the scene graph
  is as before: nothing was spawned and no path was resolved. (With a pattern in the leaf
  the check of the leaf comes first and the exception is another one.)
\<close>

theorem unsupported_type_fails_first:
  assumes "re_match_plain (last_segment (prim_path c))"
    and "t \<in> set (data_types c)" and "t \<in> set UNSUPPORTED_TYPES"
  shows "Camera_init matches base_init c w = (Inl ValueError, w)"
proof -
  have "filter (\<lambda>t. t \<in> set UNSUPPORTED_TYPES) (data_types c) \<noteq> []"
    using assms(2,3) by (auto simp: filter_empty_conv)
  then have "check_supported_data_types c = Some ValueError"
    by (simp add: check_supported_data_types_def)
  then show ?thesis using assms(1) by (simp add: Camera_init_def)
qed

theorem unsupported_type_fails_first_witness:
  "Camera_init example_matches no_base_error unsupported_cfg empty_world = (Inl ValueError, empty_world)"
  using unsupported_type_fails_first [of unsupported_cfg "''bounding_box_3d''"
      example_matches no_base_error empty_world]
  by (simp add: unsupported_cfg_def example_cfg_def UNSUPPORTED_TYPES_def
      re_match_plain_def last_segment_def plain_char_def)

text \<open>
  The claim as stated fails for an unsupported type together with a pattern in the leaf:
  the exception is not ValueError.
\<close>

theorem unsupported_type_with_regex_leaf:
  "''bounding_box_3d'' \<in> set (data_types regex_leaf_cfg) \<and>
   ''bounding_box_3d'' \<in> set UNSUPPORTED_TYPES \<and>
   fst (Camera_init example_matches no_base_error regex_leaf_cfg example_world) \<noteq> Inl ValueError"
  by (simp add: Camera_init_def regex_leaf_cfg_def example_cfg_def UNSUPPORTED_TYPES_def
      re_match_plain_def last_segment_def plain_char_def)

lemma attach_camera_prim_outcome:
  "(is_camera p \<longrightarrow> (\<exists>s'. attach_camera_prim rp dn p s = Returns s')) \<and>
   (\<not> is_camera p \<longrightarrow> attach_camera_prim rp dn p s = Raises RuntimeError s)"
  by (simp add: attach_camera_prim_def Let_def)

lemma for_each_attach_non_camera:
  assumes "list_ex (\<lambda>p. \<not> is_camera p) ps"
  shows "\<exists>s'. for_each (attach_camera_prim rp dn) ps s = Raises RuntimeError s'"
  using assms
proof (induction ps arbitrary: s)
  case Nil
  then show ?case by simp
next
  case (Cons p ps)
  show ?case
  proof (cases "is_camera p")
    case True
    then obtain s1 where a: "attach_camera_prim rp dn p s = Returns s1"
      using attach_camera_prim_outcome by blast
    from True Cons.prems have "list_ex (\<lambda>p. \<not> is_camera p) ps" by simp
    from Cons.IH [OF this, of s1] a show ?thesis by simp
  next
    case False
    then show ?thesis using attach_camera_prim_outcome [of p rp dn s] by simp
  qed
qed

text \<open>
  Claim C8. For a path with a wildcard in its leaf segment and nothing else wrong
  (supported output types, the cameras of the example scene), \<open>__init__\<close> reaches the
  statement \<open>raise RuntimeError\<close> of the claim, but the exception that leaves the
  constructor is AttributeError, not RuntimeError: the message reads \<open>self.cfg\<close>, which
  only the constructor of the base class, called later, sets.
\<close>

theorem wildcard_leaf_raises_AttributeError:
  "last_segment (prim_path wildcard_cfg) = ''Camera_.*'' \<and>
   re_match_plain (last_segment (prim_path wildcard_cfg)) = False \<and>
   check_supported_data_types wildcard_cfg = None \<and>
   fst (Camera_init example_matches no_base_error wildcard_cfg example_world) =
     Inl AttributeError \<and>
   fst (Camera_init example_matches no_base_error wildcard_cfg example_world) \<noteq>
     Inl RuntimeError"
  by (simp add: Camera_init_def wildcard_cfg_def example_cfg_def UNSUPPORTED_TYPES_def
      check_supported_data_types_def re_match_plain_def last_segment_def plain_char_def)

text \<open>
  The other failures are RuntimeError. With a plain leaf, supported types and no error
  from the base class, construction raises RuntimeError when no entity matches the path
  after spawning. Initialization, once the base class has given the number of environments
  and the device, raises RuntimeError when the number of resolved entities differs from the
  number of environments, and when the numbers agree but a resolved entity is not a camera.
  In each case the result is an exception and no camera object.
\<close>

lemma construction_failures:
  "(re_match_plain (last_segment (prim_path c)) \<and> check_supported_data_types c = None \<and>
      base_init c = None \<and>
      fst (find_matching_prims matches (prim_path c) (spawn_asset c w)) = [] \<longrightarrow>
      fst (Camera_init matches base_init c w) = Inl RuntimeError) \<and>
   (length (fst (find_matching_prims matches (prim_path (obj_cfg obj)) w)) \<noteq> n_envs \<longrightarrow>
      fst (initialize_impl matches rp (Inr (n_envs, dev)) obj w
             :: (error + ('a, 'i) camera) \<times> world) = Inl RuntimeError) \<and>
   (length (fst (find_matching_prims matches (prim_path (obj_cfg obj)) w)) = n_envs \<and>
      list_ex (\<lambda>p. \<not> is_camera p) (fst (find_matching_prims matches (prim_path (obj_cfg obj)) w)) \<longrightarrow>
      fst (initialize_impl matches rp (Inr (n_envs, dev)) obj w
             :: (error + ('a, 'i) camera) \<times> world) = Inl RuntimeError)"
proof (intro conjI impI)
  assume "re_match_plain (last_segment (prim_path c)) \<and> check_supported_data_types c = None \<and>
      base_init c = None \<and>
      fst (find_matching_prims matches (prim_path c) (spawn_asset c w)) = []"
  then show "fst (Camera_init matches base_init c w) = Inl RuntimeError"
    by (cases "find_matching_prims matches (prim_path c) (spawn_asset c w)")
      (simp add: Camera_init_def)
next
  assume "length (fst (find_matching_prims matches (prim_path (obj_cfg obj)) w)) \<noteq> n_envs"
  then show "fst (initialize_impl matches rp (Inr (n_envs, dev)) obj w
             :: (error + ('a, 'i) camera) \<times> world) = Inl RuntimeError"
    by (cases "find_matching_prims matches (prim_path (obj_cfg obj)) w")
      (simp add: initialize_impl_def)
next
  assume a: "length (fst (find_matching_prims matches (prim_path (obj_cfg obj)) w)) = n_envs \<and>
      list_ex (\<lambda>p. \<not> is_camera p) (fst (find_matching_prims matches (prim_path (obj_cfg obj)) w))"
  obtain ps w1 where f: "find_matching_prims matches (prim_path (obj_cfg obj)) w = (ps, w1)"
    by (cases "find_matching_prims matches (prim_path (obj_cfg obj)) w")
  with a have l: "length ps = n_envs" and x: "list_ex (\<lambda>p. \<not> is_camera p) ps" by simp_all
  from for_each_attach_non_camera [OF x] obtain s' :: "('a, 'i) camera" where
    "for_each (attach_camera_prim rp (device_name_of dev)) ps
       (camera_before_attach obj dev n_envs ps) = Raises RuntimeError s'"
    by blast
  then show "fst (initialize_impl matches rp (Inr (n_envs, dev)) obj w
             :: (error + ('a, 'i) camera) \<times> world) = Inl RuntimeError"
    using f l by (simp add: initialize_impl_def)
qed

lemma construction_failures_example:
  "fst (Camera_init example_matches no_base_error example_cfg empty_world) = Inl RuntimeError \<and>
   fst (initialize_impl example_matches example_render_product (Inr (3, ''cpu'')) example_obj
          example_world :: (error + (nat, string) camera) \<times> world) = Inl RuntimeError \<and>
   fst (initialize_impl example_matches example_render_product (Inr (1, ''cpu'')) light_obj
          example_world :: (error + (nat, string) camera) \<times> world) = Inl RuntimeError"
proof -
  note t2 = construction_failures [where c = example_cfg and matches = example_matches
      and base_init = no_base_error and w = empty_world, THEN conjunct1]
  note t3 = construction_failures [where obj = example_obj and matches = example_matches
      and rp = example_render_product and w = example_world and n_envs = 3 and dev = "''cpu''",
      THEN conjunct2, THEN conjunct1]
  note t4 = construction_failures [where obj = light_obj and matches = example_matches
      and rp = example_render_product and w = example_world and n_envs = 1 and dev = "''cpu''",
      THEN conjunct2, THEN conjunct2]
  have "fst (Camera_init example_matches no_base_error example_cfg empty_world) = Inl RuntimeError"
    using t2 by (simp add: example_cfg_def re_match_plain_def last_segment_def plain_char_def
        check_supported_data_types_def UNSUPPORTED_TYPES_def no_base_error_def
        find_matching_prims_def spawn_asset_def empty_world_def)
  moreover have "fst (initialize_impl example_matches example_render_product (Inr (3, ''cpu''))
      example_obj example_world :: (error + (nat, string) camera) \<times> world) = Inl RuntimeError"
    using t3 by (simp add: example_obj_def example_cfg_def find_matching_prims_def
        example_world_def example_prim_def example_matches_def last_segment_def)
  moreover have "fst (initialize_impl example_matches example_render_product (Inr (1, ''cpu''))
      light_obj example_world :: (error + (nat, string) camera) \<times> world) = Inl RuntimeError"
    using t4 by (simp add: light_obj_def example_cfg_def find_matching_prims_def
        example_world_def example_prim_def example_matches_def last_segment_def)
  ultimately show ?thesis by blast
qed

text \<open>
  The checks of the constructor run in order: when no entity matches and a requested type
  is unsupported, the exception is the ValueError of the earlier check.
\<close>

lemma zero_entities_with_unsupported_type:
  "fst (find_matching_prims example_matches (prim_path unsupported_cfg)
          (spawn_asset unsupported_cfg empty_world)) = [] \<and>
   fst (Camera_init example_matches no_base_error unsupported_cfg empty_world) = Inl ValueError"
  by (simp add: Camera_init_def unsupported_cfg_def example_cfg_def UNSUPPORTED_TYPES_def
      re_match_plain_def last_segment_def plain_char_def check_supported_data_types_def
      find_matching_prims_def spawn_asset_def empty_world_def)

subsection \<open>Initialization\<close>

lemma register_fold_keeps:
  "\<exists>R. fold (\<lambda>name s3.
            s3\<lparr>rep_registry := AList.map_entry name (f s3 name) (rep_registry s3)\<rparr>) names s
        = s\<lparr>rep_registry := R\<rparr> \<and> fst ` set R = fst ` set (rep_registry s)"
proof (induction names arbitrary: s)
  case Nil
  show ?case by (rule exI [where x = "rep_registry s"]) simp
next
  case (Cons n ns)
  let ?s1 = "s\<lparr>rep_registry := AList.map_entry n (f s n) (rep_registry s)\<rparr>"
  from Cons [of ?s1] obtain R where
    "fold (\<lambda>name s3.
            s3\<lparr>rep_registry := AList.map_entry name (f s3 name) (rep_registry s3)\<rparr>) ns ?s1
        = ?s1\<lparr>rep_registry := R\<rparr>" and "fst ` set R = fst ` set (rep_registry ?s1)"
    by blast
  then show ?case by (auto simp: dom_map_entry)
qed

lemma attach_camera_prim_changes:
  assumes "attach_camera_prim rp dn p s = Returns s'"
  shows "\<exists>sp paths R. s' = s\<lparr>sensor_prims := sp, render_product_paths := paths, rep_registry := R\<rparr>
           \<and> fst ` set R = fst ` set (rep_registry s)"
proof -
  let ?s2 = "s\<lparr>sensor_prims := sensor_prims s @ [prim_lens p],
              render_product_paths := render_product_paths s @ [rp (path p) (width (cfg s), height (cfg s))]\<rparr>"
  let ?f = "\<lambda>(s3 :: ('a, 'b) camera) name l. l @ [Annotator name (init_params_for (cfg s3) name) dn
                                     (rp (path p) (width (cfg s), height (cfg s)))]"
  from assms have s': "s' = fold (\<lambda>name s3.
            s3\<lparr>rep_registry := AList.map_entry name (?f s3 name) (rep_registry s3)\<rparr>)
         (data_types (cfg s)) ?s2"
    by (simp add: attach_camera_prim_def Let_def split: if_splits)
  from register_fold_keeps [of ?f "data_types (cfg s)" ?s2] obtain R where
    "fold (\<lambda>name s3.
            s3\<lparr>rep_registry := AList.map_entry name (?f s3 name) (rep_registry s3)\<rparr>)
         (data_types (cfg s)) ?s2 = ?s2\<lparr>rep_registry := R\<rparr>"
    and "fst ` set R = fst ` set (rep_registry ?s2)" by blast
  then show ?thesis using s' by auto
qed

lemma for_each_attach_changes:
  assumes "for_each (attach_camera_prim rp dn) ps s = Returns s'"
  shows "\<exists>sp paths R. s' = s\<lparr>sensor_prims := sp, render_product_paths := paths, rep_registry := R\<rparr>
           \<and> fst ` set R = fst ` set (rep_registry s)"
proof (rule for_each_invariant [OF assms])
  show "\<exists>sp paths R. s = s\<lparr>sensor_prims := sp, render_product_paths := paths, rep_registry := R\<rparr>
           \<and> fst ` set R = fst ` set (rep_registry s)"
    by (rule exI [where x = "sensor_prims s"], rule exI [where x = "render_product_paths s"],
        rule exI [where x = "rep_registry s"]) simp
next
  fix x t t'
  assume "\<exists>sp paths R. t = s\<lparr>sensor_prims := sp, render_product_paths := paths, rep_registry := R\<rparr>
           \<and> fst ` set R = fst ` set (rep_registry s)"
    and a: "attach_camera_prim rp dn x t = Returns t'"
  then obtain sp paths R where
    t: "t = s\<lparr>sensor_prims := sp, render_product_paths := paths, rep_registry := R\<rparr>"
    and R: "fst ` set R = fst ` set (rep_registry s)" by blast
  from attach_camera_prim_changes [OF a] obtain sp' paths' R' where
    t': "t' = t\<lparr>sensor_prims := sp', render_product_paths := paths', rep_registry := R'\<rparr>"
    and R': "fst ` set R' = fst ` set (rep_registry t)" by blast
  have "t' = s\<lparr>sensor_prims := sp', render_product_paths := paths', rep_registry := R'\<rparr>"
    using t t' by simp
  moreover have "fst ` set R' = fst ` set (rep_registry s)" using R R' t by simp
  ultimately show "\<exists>sp paths R. t' = s\<lparr>sensor_prims := sp, render_product_paths := paths, rep_registry := R\<rparr>
           \<and> fst ` set R = fst ` set (rep_registry s)"
    by blast
qed

lemma dict_keys_set: "set (dict_keys xs) = set xs"
  by (simp add: dict_keys_def)

lemma initialize_impl_Inr:
  assumes "fst (initialize_impl matches rp base obj w) = Inr s0"
  shows "\<exists>v. view s0 = Some v \<and> output_batch_size s0 = length v \<and>
           ALL_INDICES s0 = [0..<length v] \<and> frame s0 = replicate (length v) 0 \<and>
           data_output s0 = [] \<and> cfg s0 = obj_cfg obj \<and>
           fst ` set (rep_registry s0) = set (data_types (cfg s0)) \<and>
           intrinsic_matrices s0 = replicate (length v) zeros33"
proof -
  from assms obtain n_envs dev where b: "base = Inr (n_envs, dev)"
    by (cases base) (auto simp: initialize_impl_def)
  obtain ps w1 where f: "find_matching_prims matches (prim_path (obj_cfg obj)) w = (ps, w1)"
    by (cases "find_matching_prims matches (prim_path (obj_cfg obj)) w")
  from assms b f have l: "length ps = n_envs"
    by (auto simp: initialize_impl_def split: if_splits)
  from assms b f l obtain s1 where
    a: "for_each (attach_camera_prim rp (device_name_of dev)) ps
          (camera_before_attach obj dev n_envs ps) = Returns s1"
    and c: "create_buffers s1 = Returns s0"
    by (auto simp: initialize_impl_def split: outcome.splits)
  from for_each_attach_changes [OF a] obtain sp paths R where
    s1: "s1 = (camera_before_attach obj dev n_envs ps)
           \<lparr>sensor_prims := sp, render_product_paths := paths, rep_registry := R\<rparr>"
    and R: "fst ` set R = fst ` set (rep_registry (camera_before_attach obj dev n_envs ps
           :: ('a, 'b) camera))"
    by blast
  have "fst ` set R = set (data_types (obj_cfg obj))"
    using R by (simp add: camera_before_attach_def Let_def image_image dict_keys_set)
  then show ?thesis
    using c s1
    by (auto simp: create_buffers_def camera_before_attach_def Let_def)
qed

subsection \<open>Lazy allocation\<close>

lemma collect_annotator_data_changes:
  "\<exists>acc' I. final (collect_annotator_data gd name anns idx (acc, s)) = (acc', s\<lparr>data_info := I\<rparr>)"
proof -
  have "final (collect_annotator_data gd name anns idx (acc, s)) = (acc, s) \<or>
        (\<exists>acc' I. final (collect_annotator_data gd name anns idx (acc, s)) =
            (acc', s\<lparr>data_info := I\<rparr>)) \<or>
        (\<exists>acc'. final (collect_annotator_data gd name anns idx (acc, s)) = (acc', s))"
    by (auto simp: collect_annotator_data_def split: sum.splits prod.splits)
  moreover have "s = s\<lparr>data_info := data_info s\<rparr>" by simp
  ultimately show ?thesis by metis
qed

lemma for_each_collect_changes:
  fixes s :: "('a, 'i) camera"
  shows "\<exists>acc' I. final (for_each (collect_annotator_data gd name anns) ids (acc, s)) =
      (acc', s\<lparr>data_info := I\<rparr>)"
proof (rule for_each_final_invariant)
  show "\<exists>acc' I. (acc, s) = (acc', s\<lparr>data_info := I\<rparr>)"
    by (rule exI [where x = acc], rule exI [where x = "data_info s"]) simp
next
  fix x and t :: "'a tensor list \<times> ('a, 'i) camera"
  assume "\<exists>acc' I. t = (acc', s\<lparr>data_info := I\<rparr>)"
  then obtain a :: "'a tensor list" and I where t: "t = (a, s\<lparr>data_info := I\<rparr>)" by blast
  from collect_annotator_data_changes [of gd name anns x a "s\<lparr>data_info := I\<rparr>"]
  obtain a' I' where "final (collect_annotator_data gd name anns x t) =
      (a', s\<lparr>data_info := I, data_info := I'\<rparr>)"
    using t by auto
  then have "final (collect_annotator_data gd name anns x t) = (a', s\<lparr>data_info := I'\<rparr>)"
    by simp
  then show "\<exists>acc' I. final (collect_annotator_data gd name anns x t) = (acc', s\<lparr>data_info := I\<rparr>)"
    by blast
qed

lemma torch_stack_Inr: "torch_stack xs = Inr ys \<Longrightarrow> ys = xs"
  by (auto simp: torch_stack_def split: list.splits if_splits)

lemma create_annotator_data_for_Returns:
  assumes "create_annotator_data_for gd (name, anns) s = Returns s1"
  shows "\<exists>I stacked. s1 = s\<lparr>data_info := I,
             data_output := AList.update name stacked (data_output s)\<rparr> \<and>
           length stacked = output_batch_size s"
proof -
  let ?loop = "for_each (collect_annotator_data gd name anns) (ALL_INDICES s) ([], s)"
  from for_each_collect_changes [of gd name anns "ALL_INDICES s" "[]" s]
  obtain acc I where fin: "final ?loop = (acc, s\<lparr>data_info := I\<rparr>)" by blast
  from assms obtain r where loop: "?loop = Returns r"
    by (cases ?loop) (auto simp: create_annotator_data_for_def)
  with fin have r: "r = (acc, s\<lparr>data_info := I\<rparr>)" by simp
  from assms loop r obtain stacked where st: "torch_stack acc = Inr stacked"
    and len: "length stacked = output_batch_size s"
    and s1: "s1 = s\<lparr>data_info := I, data_output := AList.update name stacked (data_output s)\<rparr>"
    by (auto simp: create_annotator_data_for_def split: sum.splits if_splits)
  then show ?thesis by blast
qed

lemma create_annotator_data_for_allocates:
  assumes "create_annotator_data_for gd entry s = Returns s1"
  shows "output_batch_size s1 = output_batch_size s"
    and "allocated s1 (output_batch_size s) (fst entry)"
    and "allocated s (output_batch_size s) name \<Longrightarrow> allocated s1 (output_batch_size s) name"
proof -
  obtain n anns where e: "entry = (n, anns)" by (cases entry)
  from create_annotator_data_for_Returns [OF assms [unfolded e]] obtain I stacked where
    s1: "s1 = s\<lparr>data_info := I, data_output := AList.update n stacked (data_output s)\<rparr>"
    and l: "length stacked = output_batch_size s" by blast
  show "output_batch_size s1 = output_batch_size s" using s1 by simp
  show "allocated s1 (output_batch_size s) (fst entry)"
    using s1 l e by (simp add: allocated_def update_conv')
  show "allocated s1 (output_batch_size s) name" if "allocated s (output_batch_size s) name"
    using that s1 l by (auto simp: allocated_def update_conv')
qed

lemma for_each_create_allocates:
  assumes "for_each (create_annotator_data_for gd) reg s = Returns s'"
  shows "output_batch_size s' = output_batch_size s \<and>
         (\<forall>name. name \<in> fst ` set reg \<or> allocated s (output_batch_size s) name \<longrightarrow>
            allocated s' (output_batch_size s) name)"
  using assms
proof (induction reg arbitrary: s)
  case Nil
  then show ?case by simp
next
  case (Cons e reg)
  from Cons.prems obtain s1 where b: "create_annotator_data_for gd e s = Returns s1"
    and r: "for_each (create_annotator_data_for gd) reg s1 = Returns s'"
    by (auto split: outcome.splits)
  note a = create_annotator_data_for_allocates [OF b]
  from Cons.IH [OF r] a show ?case by auto
qed

lemma update_buffers_impl_Returns:
  assumes "update_buffers_impl gd env_ids s = Returns s'"
  shows "\<exists>fr M p q s2. s2 = s\<lparr>frame := fr, intrinsic_matrices := M, pos_w := p, quat_w_world := q\<rparr> \<and>
           index_put (frame s) env_ids (map (\<lambda>i. frame s ! i + 1) env_ids) = Inr fr \<and>
           update_intrinsic_matrices env_ids (s\<lparr>frame := fr\<rparr>) =
             Returns (s\<lparr>frame := fr, intrinsic_matrices := M\<rparr>) \<and>
           update_poses env_ids (s\<lparr>frame := fr, intrinsic_matrices := M\<rparr>) = Returns s2 \<and>
           (if length (data_output s2) = 0 then create_annotator_data gd s2
            else for_each (\<lambda>(name, annotators).
                  for_each (update_slot gd name annotators) env_ids) (rep_registry s2) s2)
             = Returns s'"
proof -
  from assms obtain fr where
    fr: "index_put (frame s) env_ids (map (\<lambda>i. frame s ! i + 1) env_ids) = Inr fr"
    by (cases "index_put (frame s) env_ids (map (\<lambda>i. frame s ! i + 1) env_ids)")
      (auto simp: update_buffers_impl_def)
  from assms fr obtain s1 s2 where
    m: "update_intrinsic_matrices env_ids (s\<lparr>frame := fr\<rparr>) = Returns s1" and
    p: "update_poses env_ids s1 = Returns s2" and
    d: "(if length (data_output s2) = 0 then create_annotator_data gd s2
         else for_each (\<lambda>(name, annotators).
                for_each (update_slot gd name annotators) env_ids) (rep_registry s2) s2)
        = Returns s'"
    by (auto simp: update_buffers_impl_def and_then_Returns)
  from update_intrinsic_matrices_changes [of env_ids "s\<lparr>frame := fr\<rparr>"] m obtain M where
    s1: "s1 = s\<lparr>frame := fr, intrinsic_matrices := M\<rparr>" by auto
  from update_poses_changes [of env_ids s1] p obtain pw qw where
    s2: "s2 = s1\<lparr>pos_w := pw, quat_w_world := qw\<rparr>" by auto
  have "s2 = s\<lparr>frame := fr, intrinsic_matrices := M, pos_w := pw, quat_w_world := qw\<rparr>"
    using s1 s2 by simp
  then show ?thesis using fr m p d s1 by blast
qed

text \<open>
  Claim C3. The camera that initialization returns has an empty output mapping: no
  requested type is a key of it, and the registry has exactly the requested types, for as
  many slots N as the view has. A refresh that starts with an empty output mapping and
  returns has given every requested type a buffer of leading dimension N, whatever slots
  were requested.
\<close>

theorem lazy_allocation:
  "(fst (initialize_impl matches rp base obj w) = Inr s0 \<longrightarrow>
      data_output s0 = [] \<and>
      (\<forall>T\<in>set (data_types (cfg s0)). map_of (data_output s0) T = None) \<and>
      fst ` set (rep_registry s0) = set (data_types (cfg s0)) \<and>
      (\<exists>v. view s0 = Some v \<and> output_batch_size s0 = length v)) \<and>
   (data_output s = [] \<and> fst ` set (rep_registry s) = set (data_types (cfg s)) \<and>
      update_buffers_impl get_data env_ids s = Returns s' \<longrightarrow>
      (\<forall>T\<in>set (data_types (cfg s)).
         \<exists>buf. map_of (data_output s') T = Some buf \<and> length buf = output_batch_size s))"
proof (intro conjI impI)
  assume a: "fst (initialize_impl matches rp base obj w) = Inr s0"
  from initialize_impl_Inr [OF a] show "data_output s0 = []" by blast
  then show "\<forall>T\<in>set (data_types (cfg s0)). map_of (data_output s0) T = None" by simp
  from initialize_impl_Inr [OF a]
  show "fst ` set (rep_registry s0) = set (data_types (cfg s0))" by blast
  from initialize_impl_Inr [OF a]
  show "\<exists>v. view s0 = Some v \<and> output_batch_size s0 = length v" by blast
next
  assume a: "data_output s = [] \<and> fst ` set (rep_registry s) = set (data_types (cfg s)) \<and>
      update_buffers_impl get_data env_ids s = Returns s'"
  from update_buffers_impl_Returns [of get_data env_ids s s'] a obtain fr M p q where
    "(if length (data_output (s\<lparr>frame := fr, intrinsic_matrices := M, pos_w := p,
            quat_w_world := q\<rparr>)) = 0
      then create_annotator_data get_data
             (s\<lparr>frame := fr, intrinsic_matrices := M, pos_w := p, quat_w_world := q\<rparr>)
      else for_each (\<lambda>(name, annotators).
             for_each (update_slot get_data name annotators) env_ids)
             (rep_registry (s\<lparr>frame := fr, intrinsic_matrices := M, pos_w := p,
                quat_w_world := q\<rparr>))
             (s\<lparr>frame := fr, intrinsic_matrices := M, pos_w := p, quat_w_world := q\<rparr>))
       = Returns s'"
    by blast
  then have c: "for_each (create_annotator_data_for get_data) (rep_registry s)
      (s\<lparr>frame := fr, intrinsic_matrices := M, pos_w := p, quat_w_world := q\<rparr>) = Returns s'"
    using a by (simp add: create_annotator_data_def)
  from for_each_create_allocates [OF c] a
  show "\<forall>T\<in>set (data_types (cfg s)).
         \<exists>buf. map_of (data_output s') T = Some buf \<and> length buf = output_batch_size s"
    by (auto simp: allocated_def)
qed

lemma initialize_example:
  "fst (initialize_impl example_matches example_render_product (Inr (2, ''cpu'')) example_obj
     example_world) = Inr fresh_camera"
  by (simp add: initialize_impl_def find_matching_prims_def example_world_def example_prim_def
      example_matches_def last_segment_def example_obj_def example_cfg_def
      camera_before_attach_def attach_camera_prim_def device_name_of_def
      example_render_product_def init_params_for_def create_buffers_def image_shape_def
      dict_keys_def fresh_camera_def Let_def upt_rec numeral_2_eq_2)

lemma first_refresh_example:
  "raised (update_buffers_impl example_get_data [0] fresh_camera) = None"
  by (simp add: update_buffers_impl_def index_put_def and_then_def
      update_intrinsic_matrices_def update_intrinsic_matrix_def image_shape_def
      update_poses_def create_annotator_data_def create_annotator_data_for_def
      collect_annotator_data_def process_annotator_output_def convert_to_torch_def
      torch_stack_def example_get_data_def
      fresh_camera_def example_cfg_def example_lens_def Let_def tan_arctan)

theorem lazy_allocation_witness:
  "fst (initialize_impl example_matches example_render_product (Inr (2, ''cpu'')) example_obj
     example_world) = Inr fresh_camera \<and>
   data_output fresh_camera = [] \<and>
   map_of (data_output fresh_camera) ''rgb'' = None \<and>
   (\<exists>s' buf. update_buffers_impl example_get_data [0] fresh_camera = Returns s' \<and>
      map_of (data_output s') ''rgb'' = Some buf \<and> length buf = 2)"
proof -
  have i: "fst (initialize_impl example_matches example_render_product (Inr (2, ''cpu''))
      example_obj example_world) = Inr fresh_camera"
    by (rule initialize_example)
  from first_refresh_example obtain s' where
    r: "update_buffers_impl example_get_data [0] fresh_camera = Returns s'"
    using Returns_final by blast
  note t = lazy_allocation [where matches = example_matches and rp = example_render_product
      and base = "Inr (2, ''cpu'')" and obj = example_obj and w = example_world
      and ?s0.0 = fresh_camera and s = fresh_camera and get_data = example_get_data
      and env_ids = "[0]" and s' = s']
  from t i have a: "data_output fresh_camera = []"
    and k: "fst ` set (rep_registry fresh_camera) = set (data_types (cfg fresh_camera))"
    and n: "\<forall>T\<in>set (data_types (cfg fresh_camera)). map_of (data_output fresh_camera) T = None"
    by blast+
  from t a k r have "\<forall>T\<in>set (data_types (cfg fresh_camera)).
      \<exists>buf. map_of (data_output s') T = Some buf \<and> length buf = output_batch_size fresh_camera"
    by blast
  then have "\<exists>buf. map_of (data_output s') ''rgb'' = Some buf \<and> length buf = 2"
    by (simp add: fresh_camera_def example_cfg_def)
  moreover have "map_of (data_output fresh_camera) ''rgb'' = None"
    using n by (simp add: fresh_camera_def example_cfg_def)
  ultimately show ?thesis using i a r by blast
qed

subsection \<open>Failure of a refresh\<close>



lemma setitem_value_examples:
  "setitem_value [2, 2] (Tensor [2, 2] ''cpu'' [1, 2, 3, 4::nat]) =
     Inr (Tensor [2, 2] ''cpu'' [1, 2, 3, 4]) \<and>
   setitem_value [2, 2] (Tensor [2] ''cpu'' [1, 2::nat]) =
     Inr (Tensor [2, 2] ''cpu'' [1, 2, 1, 2]) \<and>
   setitem_value [2, 2] (Tensor [2, 1] ''cpu'' [1, 2::nat]) =
     Inr (Tensor [2, 2] ''cpu'' [1, 1, 2, 2]) \<and>
   setitem_value [2, 2] (Tensor [1, 1, 2] ''cpu'' [1, 2::nat]) =
     Inr (Tensor [2, 2] ''cpu'' [1, 2, 1, 2]) \<and>
   setitem_value [2, 2] (Tensor [] ''cpu'' [7::nat]) =
     Inr (Tensor [2, 2] ''cpu'' [7, 7, 7, 7]) \<and>
   setitem_value [2, 2] (Tensor [3] ''cpu'' [1, 2, 3::nat]) = Inl RuntimeError \<and>
   setitem_value [2] (Tensor [2, 2] ''cpu'' [1, 2, 3, 4::nat]) = Inl RuntimeError"
  by (simp add: setitem_value_def broadcastable_def blocks_def Let_def numeral_2_eq_2
      upt_rec [of 0])


lemma update_slot_final:
  "final (update_slot gd name anns index t) = t \<or>
   (\<exists>out data info buf slice I.
      gd name index = Inr out \<and> process_annotator_output (device t) out = Inr (data, info) \<and>
      map_of (data_output t) name = Some buf \<and> index < length buf \<and>
      setitem_value (shape (buf ! index)) data = Inr slice \<and>
      final (update_slot gd name anns index t) =
        t\<lparr>data_output := AList.update name (buf[index := slice]) (data_output t),
          data_info := I\<rparr>)"
proof -
  have "final (update_slot gd name anns index t) = t \<or>
   (\<exists>out data info buf slice.
      gd name index = Inr out \<and> process_annotator_output (device t) out = Inr (data, info) \<and>
      map_of (data_output t) name = Some buf \<and> index < length buf \<and>
      setitem_value (shape (buf ! index)) data = Inr slice \<and>
      (final (update_slot gd name anns index t) =
        t\<lparr>data_output := AList.update name (buf[index := slice]) (data_output t)\<rparr> \<or>
       (\<exists>I. final (update_slot gd name anns index t) =
        t\<lparr>data_output := AList.update name (buf[index := slice]) (data_output t),
          data_info := I\<rparr>)))"
    by (auto simp: update_slot_def Let_def split: sum.splits option.splits prod.splits)
  moreover have "\<And>B. t\<lparr>data_output := B\<rparr> = t\<lparr>data_output := B, data_info := data_info t\<rparr>"
    by simp
  ultimately show ?thesis by metis
qed












text \<open>
  When slot 0 delivers an array of shape [2] and slot 1 fails, the refresh ends with the
  exception of the backend, and slot 0 holds the array broadcast to the shape [2, 2] of
  its slice.
\<close>

lemma narrow_refresh_example:
  "update_buffers_impl narrow_get_data [0, 1] example_camera =
     Raises CaptureError (final (update_buffers_impl narrow_get_data [0, 1] example_camera)) \<and>
   map_of (data_output (final (update_buffers_impl narrow_get_data [0, 1] example_camera))) ''rgb''
     = Some [Tensor [2, 2] ''cpu'' [30, 31, 30, 31], Tensor [2, 2] ''cpu'' [11, 11, 11, 11]]"
proof -
  have b: "setitem_value [2, 2] (Tensor [2] ''cpu'' [30, 31::nat]) =
      Inr (Tensor [2, 2] ''cpu'' [30, 31, 30, 31])"
    by (simp add: setitem_value_def broadcastable_def blocks_def Let_def numeral_2_eq_2
        upt_rec [of 0])
  show ?thesis
    by (simp add: update_buffers_impl_def index_put_def and_then_def
        update_intrinsic_matrices_def update_intrinsic_matrix_def image_shape_def
        update_poses_def update_slot_def b
        process_annotator_output_def convert_to_torch_def narrow_get_data_def
        example_camera_def example_cfg_def example_lens_def Let_def tan_arctan)
qed




subsection \<open>The steps of a refresh\<close>

lemma update_slot_changes:
  "\<exists>B I. final (update_slot gd name anns index t) = t\<lparr>data_output := B, data_info := I\<rparr>"
proof -
  have "t = t\<lparr>data_output := data_output t, data_info := data_info t\<rparr>" by simp
  then show ?thesis using update_slot_final [of gd name anns index t] by metis
qed

lemma update_slots_changes:
  "\<exists>B I. final (for_each (update_slot gd name anns) ids t) = t\<lparr>data_output := B, data_info := I\<rparr>"
proof (rule for_each_final_invariant)
  show "\<exists>B I. t = t\<lparr>data_output := B, data_info := I\<rparr>"
    by (rule exI [where x = "data_output t"], rule exI [where x = "data_info t"]) simp
next
  fix x u
  assume "\<exists>B I. u = t\<lparr>data_output := B, data_info := I\<rparr>"
  then obtain B I where u: "u = t\<lparr>data_output := B, data_info := I\<rparr>" by blast
  from update_slot_changes [of gd name anns x u] obtain B' I' where
    "final (update_slot gd name anns x u) = u\<lparr>data_output := B', data_info := I'\<rparr>" by blast
  then have "final (update_slot gd name anns x u) = t\<lparr>data_output := B', data_info := I'\<rparr>"
    using u by simp
  then show "\<exists>B I. final (update_slot gd name anns x u) = t\<lparr>data_output := B, data_info := I\<rparr>"
    by blast
qed

lemma update_registry_changes:
  "\<exists>B I. final (for_each (\<lambda>(name, annotators).
       for_each (update_slot gd name annotators) ids) reg t)
     = t\<lparr>data_output := B, data_info := I\<rparr>"
proof (rule for_each_final_invariant)
  show "\<exists>B I. t = t\<lparr>data_output := B, data_info := I\<rparr>"
    by (rule exI [where x = "data_output t"], rule exI [where x = "data_info t"]) simp
next
  fix x :: "string \<times> annotator list" and u
  assume "\<exists>B I. u = t\<lparr>data_output := B, data_info := I\<rparr>"
  then obtain B I where u: "u = t\<lparr>data_output := B, data_info := I\<rparr>" by blast
  from update_slots_changes [of gd "fst x" "snd x" ids u] obtain B' I' where
    "final (for_each (update_slot gd (fst x) (snd x)) ids u) =
       u\<lparr>data_output := B', data_info := I'\<rparr>" by blast
  then have "final ((case x of (name, annotators) \<Rightarrow>
       for_each (update_slot gd name annotators) ids) u) = t\<lparr>data_output := B', data_info := I'\<rparr>"
    using u by (cases x) simp
  then show "\<exists>B I. final ((case x of (name, annotators) \<Rightarrow>
       for_each (update_slot gd name annotators) ids) u) = t\<lparr>data_output := B, data_info := I\<rparr>"
    by blast
qed

lemma create_annotator_data_changes:
  assumes "create_annotator_data gd t = Returns t'"
  shows "\<exists>B I. t' = t\<lparr>data_output := B, data_info := I\<rparr>"
  using assms unfolding create_annotator_data_def
proof (rule for_each_invariant)
  show "\<exists>B I. t = t\<lparr>data_output := B, data_info := I\<rparr>"
    by (rule exI [where x = "data_output t"], rule exI [where x = "data_info t"]) simp
next
  fix x u u'
  assume "\<exists>B I. u = t\<lparr>data_output := B, data_info := I\<rparr>"
    and c: "create_annotator_data_for gd x u = Returns u'"
  then obtain B I where u: "u = t\<lparr>data_output := B, data_info := I\<rparr>" by blast
  obtain n anns where x: "x = (n, anns)" by (cases x)
  from create_annotator_data_for_Returns [OF c [unfolded x]] obtain I' stacked where
    "u' = u\<lparr>data_info := I', data_output := AList.update n stacked (data_output u)\<rparr>" by blast
  then have "u' = t\<lparr>data_output := AList.update n stacked (data_output u), data_info := I'\<rparr>"
    using u by simp
  then show "\<exists>B I. u' = t\<lparr>data_output := B, data_info := I\<rparr>" by blast
qed

lemma update_buffers_impl_steps:
  assumes "update_buffers_impl gd env_ids s = Returns s'"
  shows "\<exists>fr s1 s2 B I.
           index_put (frame s) env_ids (map (\<lambda>i. frame s ! i + 1) env_ids) = Inr fr \<and>
           update_intrinsic_matrices env_ids (s\<lparr>frame := fr\<rparr>) = Returns s1 \<and>
           update_poses env_ids s1 = Returns s2 \<and>
           s' = s2\<lparr>data_output := B, data_info := I\<rparr>"
proof -
  from update_buffers_impl_Returns [OF assms] obtain fr M p q s2 where
    s2: "s2 = s\<lparr>frame := fr, intrinsic_matrices := M, pos_w := p, quat_w_world := q\<rparr>" and
    fr: "index_put (frame s) env_ids (map (\<lambda>i. frame s ! i + 1) env_ids) = Inr fr" and
    m: "update_intrinsic_matrices env_ids (s\<lparr>frame := fr\<rparr>) =
             Returns (s\<lparr>frame := fr, intrinsic_matrices := M\<rparr>)" and
    p: "update_poses env_ids (s\<lparr>frame := fr, intrinsic_matrices := M\<rparr>) = Returns s2" and
    d: "(if length (data_output s2) = 0 then create_annotator_data gd s2
            else for_each (\<lambda>(name, annotators).
                  for_each (update_slot gd name annotators) env_ids) (rep_registry s2) s2)
             = Returns s'"
    by blast
  have "\<exists>B I. s' = s2\<lparr>data_output := B, data_info := I\<rparr>"
  proof (cases "length (data_output s2) = 0")
    case True
    then show ?thesis using d create_annotator_data_changes [of gd s2 s'] by simp
  next
    case False
    then have "final (for_each (\<lambda>(name, annotators).
                  for_each (update_slot gd name annotators) env_ids) (rep_registry s2) s2) = s'"
      using d by simp
    then show ?thesis using update_registry_changes [of gd env_ids "rep_registry s2" s2] by simp
  qed
  then show ?thesis using fr m p by blast
qed

text \<open>
  A refresh and a reset that return leave the configuration, the registry, the view and the
  lenses as they are, and keep the never-written entries of the intrinsic matrices zero.
\<close>

lemma update_buffers_impl_keeps:
  assumes "update_buffers_impl gd env_ids s = Returns s'"
  shows "cfg s' = cfg s \<and> rep_registry s' = rep_registry s \<and>
         output_batch_size s' = output_batch_size s \<and> ALL_INDICES s' = ALL_INDICES s \<and>
         view s' = view s \<and> sensor_prims s' = sensor_prims s \<and>
         (list_all no_skew (intrinsic_matrices s) \<longrightarrow> list_all no_skew (intrinsic_matrices s'))"
proof -
  from update_buffers_impl_steps [OF assms] obtain fr s1 s2 B I where
    m: "update_intrinsic_matrices env_ids (s\<lparr>frame := fr\<rparr>) = Returns s1" and
    p: "update_poses env_ids s1 = Returns s2" and
    s': "s' = s2\<lparr>data_output := B, data_info := I\<rparr>"
    by blast
  from update_intrinsic_matrices_changes [of env_ids "s\<lparr>frame := fr\<rparr>"] m obtain M where
    s1: "s1 = s\<lparr>frame := fr, intrinsic_matrices := M\<rparr>" by auto
  from update_poses_changes [of env_ids s1] p obtain pw qw where
    s2: "s2 = s1\<lparr>pos_w := pw, quat_w_world := qw\<rparr>" by auto
  have "list_all no_skew (intrinsic_matrices s1)" if "list_all no_skew (intrinsic_matrices s)"
    using update_intrinsic_matrices_no_skew [OF m] that by simp
  then show ?thesis using s' s2 s1 by simp
qed

lemma reset_keeps:
  assumes "reset env_ids s = Returns s'"
  shows "cfg s' = cfg s \<and> rep_registry s' = rep_registry s \<and>
         output_batch_size s' = output_batch_size s \<and> ALL_INDICES s' = ALL_INDICES s \<and>
         view s' = view s \<and> sensor_prims s' = sensor_prims s \<and>
         (list_all no_skew (intrinsic_matrices s) \<longrightarrow> list_all no_skew (intrinsic_matrices s'))"
proof -
  from reset_Returns [OF assms refl] obtain ts od s1 s2 fr where
    p: "update_poses (case env_ids of None \<Rightarrow> ALL_INDICES s | Some given \<Rightarrow> given)
          (s\<lparr>timestamp := ts, is_outdated := od\<rparr>) = Returns s1" and
    m: "update_intrinsic_matrices (case env_ids of None \<Rightarrow> ALL_INDICES s | Some given \<Rightarrow> given) s1
          = Returns s2" and
    s': "s' = s2\<lparr>frame := fr\<rparr>"
    by blast
  let ?ids = "case env_ids of None \<Rightarrow> ALL_INDICES s | Some given \<Rightarrow> given"
  from update_poses_changes [of ?ids "s\<lparr>timestamp := ts, is_outdated := od\<rparr>"] p obtain pw qw where
    s1: "s1 = s\<lparr>timestamp := ts, is_outdated := od, pos_w := pw, quat_w_world := qw\<rparr>" by auto
  from update_intrinsic_matrices_changes [of ?ids s1] m obtain M where
    s2: "s2 = s1\<lparr>intrinsic_matrices := M\<rparr>" by auto
  have "list_all no_skew (intrinsic_matrices s2)" if "list_all no_skew (intrinsic_matrices s)"
    using update_intrinsic_matrices_no_skew [OF m] that s1 by simp
  then show ?thesis using s' s2 s1 by simp
qed


text \<open>
  Claim C5. When the refresh of the intrinsics returns, alone or as a step of a refresh
  that returns, the matrix of every requested slot \<open>i\<close> has
  \<open>M[0,0] = M[1,1] = width 0.5 / tan(fov / 2)\<close> with
  \<open>fov = 2 atan(horizontalAperture / (2 focalLength))\<close> read from the lens of slot \<open>i\<close>
  (which the refresh leaves as it is), \<open>M[0,2] = width / 2\<close>, \<open>M[1,2] = height / 2\<close>,
  \<open>M[2,2] = 1\<close> and zero elsewhere. The four entries that are never written are zero
  since \<open>_create_buffers\<close> (lemmas \<open>create_buffers_no_skew\<close> and
  \<open>update_intrinsic_matrices_no_skew\<close>).
\<close>

theorem refreshed_intrinsic_matrix:
  assumes "update_intrinsic_matrices env_ids s = Returns s' \<or>
           update_buffers_impl get_data env_ids s = Returns s'"
    and "i \<in> set env_ids"
    and "list_all no_skew (intrinsic_matrices s)"
  shows "sensor_prims s' = sensor_prims s \<and>
         intrinsic_matrices s' ! i =
           (let l = sensor_prims s ! i;
                w = real_of_int (width (cfg s));
                h = real_of_int (height (cfg s));
                fov = 2 * arctan (horizontal_aperture l / (2 * focal_length l));
                f_px = w * 0.5 / tan (fov / 2)
            in \<lparr>m00 = f_px, m01 = 0, m02 = w / 2,
                m10 = 0, m11 = f_px, m12 = h / 2,
                m20 = 0, m21 = 0, m22 = 1\<rparr>)"
  using assms(1)
proof
  assume r: "update_intrinsic_matrices env_ids s = Returns s'"
  from update_intrinsic_matrices_computes [OF r assms(2,3)] update_intrinsic_matrices_frame [OF r]
  show ?thesis by (simp add: computeIntrinsics_def Let_def)
next
  assume "update_buffers_impl get_data env_ids s = Returns s'"
  from update_buffers_impl_steps [OF this] obtain fr s1 s2 B I where
    m: "update_intrinsic_matrices env_ids (s\<lparr>frame := fr\<rparr>) = Returns s1" and
    p: "update_poses env_ids s1 = Returns s2" and
    s': "s' = s2\<lparr>data_output := B, data_info := I\<rparr>"
    by blast
  from update_poses_changes [of env_ids s1] p obtain pw qw where
    s2: "s2 = s1\<lparr>pos_w := pw, quat_w_world := qw\<rparr>" by auto
  have n: "list_all no_skew (intrinsic_matrices (s\<lparr>frame := fr\<rparr>))" using assms(3) by simp
  from update_intrinsic_matrices_computes [OF m assms(2) n] update_intrinsic_matrices_frame [OF m]
  show ?thesis using s' s2 by (simp add: computeIntrinsics_def Let_def)
qed

theorem refreshed_intrinsic_matrix_witness:
  "(\<exists>s'. update_intrinsic_matrices [1] example_camera = Returns s' \<and>
        intrinsic_matrices s' ! 1 =
          \<lparr>m00 = 320, m01 = 0, m02 = 320, m10 = 0, m11 = 320, m12 = 240,
           m20 = 0, m21 = 0, m22 = 1\<rparr>) \<and>
   (\<exists>s'. update_buffers_impl example_get_data [1] example_camera = Returns s' \<and>
        intrinsic_matrices s' ! 1 =
          \<lparr>m00 = 320, m01 = 0, m02 = 320, m10 = 0, m11 = 320, m12 = 240,
           m20 = 0, m21 = 0, m22 = 1\<rparr>)"
proof -
  have "raised (update_intrinsic_matrices [1] example_camera) = None"
    by (simp add: update_intrinsic_matrices_def update_intrinsic_matrix_def example_camera_def
        example_lens_def example_cfg_def image_shape_def tan_arctan Let_def)
  then obtain s1 where r1: "update_intrinsic_matrices [1] example_camera = Returns s1"
    using Returns_final by blast
  have "raised (update_buffers_impl example_get_data [1] example_camera) = None"
    by (simp add: update_buffers_impl_def index_put_def and_then_def
        update_intrinsic_matrices_def update_intrinsic_matrix_def image_shape_def
        update_poses_def update_slot_def setitem_value_def process_annotator_output_def
        convert_to_torch_def
        example_get_data_def
        example_camera_def example_cfg_def example_lens_def Let_def tan_arctan)
  then obtain s2 where r2: "update_buffers_impl example_get_data [1] example_camera = Returns s2"
    using Returns_final by blast
  have n: "list_all no_skew (intrinsic_matrices example_camera)"
    by (simp add: example_camera_def no_skew_def zeros33_def)
  have "intrinsic_matrices s1 ! 1 =
          \<lparr>m00 = 320, m01 = 0, m02 = 320, m10 = 0, m11 = 320, m12 = 240,
           m20 = 0, m21 = 0, m22 = 1\<rparr>"
    using refreshed_intrinsic_matrix [OF disjI1 [OF r1] _ n, of 1]
    by (simp add: example_camera_def example_lens_def example_cfg_def tan_arctan Let_def)
  moreover have "intrinsic_matrices s2 ! 1 =
          \<lparr>m00 = 320, m01 = 0, m02 = 320, m10 = 0, m11 = 320, m12 = 240,
           m20 = 0, m21 = 0, m22 = 1\<rparr>"
    using refreshed_intrinsic_matrix [OF disjI2 [OF r2] _ n, of 1]
    by (simp add: example_camera_def example_lens_def example_cfg_def tan_arctan Let_def)
  ultimately show ?thesis using r1 r2 by blast
qed


text \<open>
  What \<open>_update_poses\<close> stores when it returns, alone or as a step of a refresh that
  returns: every requested slot holds the position pulled from the view, unchanged, and in
  \<open>quat_w_world\<close> the pulled orientation converted from the opengl convention to the world
  convention (forward +X, up +Z), the target that the call names.
\<close>

lemma update_poses_world_convention:
  assumes "update_poses env_ids s = Returns s' \<or>
           update_buffers_impl get_data env_ids s = Returns s'"
    and "view s = Some v"
    and "i \<in> set env_ids"
  shows "pos_w s' ! i = fst (v ! i) \<and>
         quat_w_world s' ! i = convert_orientation_convention (snd (v ! i)) OpenGL World"
  using assms(1)
proof
  assume "update_poses env_ids s = Returns s'"
  from update_poses_stores [OF this assms(2,3)] show ?thesis .
next
  assume "update_buffers_impl get_data env_ids s = Returns s'"
  from update_buffers_impl_steps [OF this] obtain fr s1 s2 B I where
    m: "update_intrinsic_matrices env_ids (s\<lparr>frame := fr\<rparr>) = Returns s1" and
    p: "update_poses env_ids s1 = Returns s2" and
    s': "s' = s2\<lparr>data_output := B, data_info := I\<rparr>"
    by blast
  from update_intrinsic_matrices_changes [of env_ids "s\<lparr>frame := fr\<rparr>"] m obtain M where
    s1: "s1 = s\<lparr>frame := fr, intrinsic_matrices := M\<rparr>" by auto
  have "view s1 = Some v" using s1 assms(2) by simp
  from update_poses_stores [OF p this assms(3)] show ?thesis using s' by simp
qed

text \<open>
  Claim C1. The claim, the docstring of \<open>_update_poses\<close> and the docstring of the class
  all name the ros convention (forward +Z, up -Y) for the stored orientation, and the
  code converts to the world convention. For slot 0 of the example, whose opengl
  orientation is the identity, \<open>_update_poses\<close> and a whole refresh return, the stored
  position is the pulled one, and the stored quaternion is the conversion to the world
  convention, which is not the conversion to the ros convention.
\<close>

theorem update_poses_not_ros_convention:
  "the (view example_camera) ! 0 = ((0, 0, 1), (1, 0, 0, 0)) \<and>
   raised (update_poses [0] example_camera) = None \<and>
   pos_w (final (update_poses [0] example_camera)) ! 0 = (0, 0, 1) \<and>
   quat_w_world (final (update_poses [0] example_camera)) ! 0 =
     convert_orientation_convention (1, 0, 0, 0) OpenGL World \<and>
   quat_w_world (final (update_poses [0] example_camera)) ! 0 \<noteq>
     convert_orientation_convention (1, 0, 0, 0) OpenGL Ros \<and>
   raised (update_buffers_impl example_get_data [0] example_camera) = None \<and>
   pos_w (final (update_buffers_impl example_get_data [0] example_camera)) ! 0 = (0, 0, 1) \<and>
   quat_w_world (final (update_buffers_impl example_get_data [0] example_camera)) ! 0 =
     convert_orientation_convention (1, 0, 0, 0) OpenGL World \<and>
   quat_w_world (final (update_buffers_impl example_get_data [0] example_camera)) ! 0 \<noteq>
     convert_orientation_convention (1, 0, 0, 0) OpenGL Ros"
  by (simp add: update_buffers_impl_def index_put_def and_then_def
        update_intrinsic_matrices_def update_intrinsic_matrix_def image_shape_def
        update_poses_def update_slot_def setitem_value_def process_annotator_output_def
        convert_to_torch_def example_get_data_def convert_orientation_convention_def
        quat_mul_def example_camera_def example_cfg_def example_lens_def Let_def tan_arctan)

end
